theory Spec2Isabelle
  imports Complex_Main "HOL-Library.AList"
begin

section \<open>Python values, errors and dictionaries\<close>

text \<open>
  The patcher is the single module \<^verbatim>\<open>open_dread_rando/dread_patcher.py\<close>. It works on
  JSON documents (the configuration and the actor-definition template), on scene
  resources and on a file-tree editor of the library
  \<^verbatim>\<open>mercury_engine_data_structures\<close>.

  A JSON number is a Python \<^verbatim>\<open>int\<close> or \<^verbatim>\<open>float\<close>. A finite float is the real number
  it denotes (the sign of a zero is not kept); the two infinities (\<open>PyInf True\<close> is the
  positive one) and the value that is not a number are values of their own.
\<close>

datatype number = PyInt int | PyFloat real | PyInf bool | PyNaN

text \<open>The real number a finite number denotes.\<close>

definition num_val :: "number \<Rightarrow> real" where
  "num_val n = (case n of PyInt i \<Rightarrow> of_int i | PyFloat r \<Rightarrow> r | _ \<Rightarrow> 0)"

text \<open>
  \<^verbatim>\<open>quantity > 1\<close>: Python compares an \<^verbatim>\<open>int\<close> and a \<^verbatim>\<open>float\<close> with \<^verbatim>\<open>1\<close> exactly; the
  positive infinity is greater, the value that is not a number is not.
\<close>

definition gt_one :: "number \<Rightarrow> bool" where
  "gt_one n = (case n of PyInt i \<Rightarrow> 1 < i | PyFloat r \<Rightarrow> 1 < r | PyInf positive \<Rightarrow> positive
               | PyNaN \<Rightarrow> False)"

text \<open>
  What \<^verbatim>\<open>json.load\<close> returns. A \<^verbatim>\<open>dict\<close> keeps its keys in insertion order, so it
  is an association list.
\<close>

datatype json =
    JNull
  | JBool bool
  | JNum number
  | JStr string
  | JArr "json list"
  | JObj "(string \<times> json) list"

text \<open>
  Every \<^verbatim>\<open>raise\<close> of the module and every exception of the operations it calls is a
  value. \<open>ActorIsNotATeleporter ref\<close> is
  \<^verbatim>\<open>ValueError(f'Actor {elevator["teleporter"]} is not a teleporter')\<close>: the message
  is the formatted actor reference between two fixed texts, so the error carries
  the reference. \<open>UnknownAsset\<close>, \<open>AssetAlreadyExists\<close> and \<open>UnknownPkg\<close> are the
  \<^verbatim>\<open>ValueError\<close>s of the file-tree editor, \<open>ValidationError\<close> is the one of
  \<^verbatim>\<open>jsonschema.validate\<close>, \<open>OverflowError\<close> the one of an \<^verbatim>\<open>int\<close> too large to convert
  to \<^verbatim>\<open>float\<close>.
\<close>

record actor_reference =
  scenario :: string
  layer :: string
  actor :: string

datatype error =
    KeyError
  | TypeError
  | IndexError
  | ActorIsNotATeleporter actor_reference
  | UnknownAsset string
  | AssetAlreadyExists string
  | UnknownPkg string
  | AttributeError
  | ValidationError
  | FileNotFoundError
  | UnicodeEncodeError
  | OverflowError

type_synonym 'a result = "error + 'a"

definition rbind :: "'a result \<Rightarrow> ('a \<Rightarrow> 'b result) \<Rightarrow> 'b result" where
  "rbind r f = (case r of Inl e \<Rightarrow> Inl e | Inr x \<Rightarrow> f x)"

section \<open>Floating-point products\<close>

text \<open>
  A Python \<^verbatim>\<open>float\<close> is an IEEE 754 double: 53 significant bits, the unit in the last
  place never below \<open>2 powi (- 1074)\<close>, and every result of an operation rounded to the
  nearest double, to the one with an even significand when two are equally near.
  \<open>round_double x\<close> is that double for a real \<open>x\<close>, with no bound on how large it is.
\<close>

definition round_half_even :: "real \<Rightarrow> int" where
  "round_half_even y =
     (let f = \<lfloor>y\<rfloor> in
      if y - of_int f < 1 / 2 then f
      else if 1 / 2 < y - of_int f then f + 1
      else if even f then f else f + 1)"

definition double_exponent :: "real \<Rightarrow> int" where
  "double_exponent x = max (\<lfloor>log 2 \<bar>x\<bar>\<rfloor> - 52) (- 1074)"

definition round_double :: "real \<Rightarrow> real" where
  "round_double x =
     (if x = 0 then 0
      else of_int (round_half_even (x / 2 powi double_exponent x)) * 2 powi double_exponent x)"

text \<open>
  The result of a float operation whose exact value is \<open>x\<close>: a rounded value of
  magnitude \<open>2 ^ 1024\<close> or more is an infinity.
\<close>

definition float_of_real :: "real \<Rightarrow> number" where
  "float_of_real x =
     (let r = round_double x in if 2 ^ 1024 \<le> \<bar>r\<bar> then PyInf (0 < r) else PyFloat r)"

text \<open>
  The conversion of an \<^verbatim>\<open>int\<close> operand to \<^verbatim>\<open>float\<close> rounds in the same way and raises
  \<^verbatim>\<open>OverflowError\<close> where the rounded value is too large.
\<close>

definition float_of_int :: "int \<Rightarrow> real result" where
  "float_of_int i =
     (let r = round_double (of_int i) in if 2 ^ 1024 \<le> \<bar>r\<bar> then Inl OverflowError else Inr r)"

text \<open>
  \<^verbatim>\<open>quantity *= 100.0\<close> is \<open>mul_float quantity 100\<close>: the product of a number and the
  finite float \<open>r\<close>. An \<^verbatim>\<open>int\<close> is converted first; the product of floats never raises.
\<close>

definition mul_float :: "number \<Rightarrow> real \<Rightarrow> number result" where
  "mul_float n r =
     (case n of
        PyInt i \<Rightarrow> rbind (float_of_int i) (\<lambda>x. Inr (float_of_real (x * r)))
      | PyFloat x \<Rightarrow> Inr (float_of_real (x * r))
      | PyInf positive \<Rightarrow>
          Inr (if r = 0 then PyNaN else PyInf (if 0 < r then positive else \<not> positive))
      | PyNaN \<Rightarrow> Inr PyNaN)"

section \<open>Reading and writing JSON values\<close>

text \<open>\<^verbatim>\<open>j[k]\<close> with a string key: only a \<^verbatim>\<open>dict\<close> can be indexed by a string.\<close>

definition getitem :: "json \<Rightarrow> string \<Rightarrow> json result" where
  "getitem j k =
     (case j of
        JObj kvs \<Rightarrow> (case map_of kvs k of None \<Rightarrow> Inl KeyError | Some v \<Rightarrow> Inr v)
      | _ \<Rightarrow> Inl TypeError)"

text \<open>
  \<^verbatim>\<open>j[0]\<close>: the first element of a list, the first character of a string; a
  \<^verbatim>\<open>dict\<close> loaded from JSON has string keys only, so \<^verbatim>\<open>0\<close> is never one of them.
\<close>

definition getitem0 :: "json \<Rightarrow> json result" where
  "getitem0 j =
     (case j of
        JArr xs \<Rightarrow> (case xs of [] \<Rightarrow> Inl IndexError | x # _ \<Rightarrow> Inr x)
      | JStr s \<Rightarrow> (case s of [] \<Rightarrow> Inl IndexError | c # _ \<Rightarrow> Inr (JStr [c]))
      | JObj kvs \<Rightarrow> Inl KeyError
      | _ \<Rightarrow> Inl TypeError)"

text \<open>
  \<^verbatim>\<open>j[k] = v\<close> with a string key: an existing key keeps its place, a new key goes
  last (\<^const>\<open>AList.update\<close>).
\<close>

definition setitem :: "json \<Rightarrow> string \<Rightarrow> json \<Rightarrow> json result" where
  "setitem j k v =
     (case j of
        JObj kvs \<Rightarrow> Inr (JObj (AList.update k v kvs))
      | _ \<Rightarrow> Inl TypeError)"

text \<open>
  The source mutates nested objects in place. Here a changed child is stored back
  into its parent: \<open>put\<close> into a \<^verbatim>\<open>dict\<close>, \<open>put0\<close> at index 0 of a list. Both
  are only used on a parent the child was read from.
\<close>

definition put :: "json \<Rightarrow> string \<Rightarrow> json \<Rightarrow> json" where
  "put j k v = (case j of JObj kvs \<Rightarrow> JObj (AList.update k v kvs) | _ \<Rightarrow> j)"

definition put0 :: "json \<Rightarrow> json \<Rightarrow> json" where
  "put0 j v = (case j of JArr (x # xs) \<Rightarrow> JArr (v # xs) | _ \<Rightarrow> j)"

section \<open>Strings\<close>

text \<open>
  \<^verbatim>\<open>s.replace(old, new)\<close>: every occurrence of \<open>old\<close>, left to right, without
  overlap; an empty \<open>old\<close> matches before every character and at the end.
\<close>

function str_replace :: "string \<Rightarrow> string \<Rightarrow> string \<Rightarrow> string" where
  "str_replace old new [] = (if old = [] then new else [])"
| "str_replace old new (c # cs) =
     (if old = [] then new @ c # str_replace old new cs
      else if take (length old) (c # cs) = old
        then new @ str_replace old new (drop (length old) (c # cs))
      else c # str_replace old new cs)"
  by pat_completeness auto
termination
  by (relation "measure (\<lambda>(old, new, s). length s)") auto


text \<open>\<^verbatim>\<open>sep.join(xs)\<close>.\<close>

fun str_join :: "string \<Rightarrow> string list \<Rightarrow> string" where
  "str_join sep [] = []"
| "str_join sep [x] = x"
| "str_join sep (x # y # ys) = x @ sep @ str_join sep (y # ys)"

text \<open>\<^verbatim>\<open>str(n)\<close> for a natural number and for an integer: decimal digits.\<close>

definition digit_char :: "nat \<Rightarrow> char" where
  "digit_char d = ''0123456789'' ! d"

function str_nat :: "nat \<Rightarrow> string" where
  "str_nat n = (if n < 10 then [digit_char n] else str_nat (n div 10) @ [digit_char (n mod 10)])"
  by pat_completeness auto
termination
  by (relation "measure id") auto

declare str_nat.simps [simp del]

definition str_int :: "int \<Rightarrow> string" where
  "str_int i = (if i < 0 then CHR ''-'' # str_nat (nat (- i)) else str_nat (nat i))"


section \<open>The configuration\<close>

text \<open>
  The configuration is a JSON document that \<^verbatim>\<open>patch\<close> validates against
  \<^verbatim>\<open>schema.json\<close> before anything else. The records below are the shape the code reads:
  \<^verbatim>\<open>elevator["teleporter"]\<close> and \<^verbatim>\<open>pickup["pickup_actor"]\<close> with the keys
  \<^verbatim>\<open>scenario\<close>, \<^verbatim>\<open>layer\<close>, \<^verbatim>\<open>actor\<close>; \<^verbatim>\<open>elevator["destination"]\<close> and
  \<^verbatim>\<open>configuration["starting_location"]\<close> with the keys \<^verbatim>\<open>scenario\<close> and \<^verbatim>\<open>actor\<close>.
  \<^verbatim>\<open>starting_items\<close> is a \<^verbatim>\<open>dict[str, int]\<close> in the order of the document.
\<close>

record location =
  loc_scenario :: string
  loc_actor :: string

record elevator =
  teleporter :: actor_reference
  destination :: location

record pickup =
  pickup_actor :: actor_reference
  item_id :: string
  quantity :: number
  caption :: string

record configuration =
  starting_items :: "(string \<times> int) list"
  starting_location :: location
  elevators :: "elevator list option"
  pickups :: "pickup list"

section \<open>The script injector: \<^verbatim>\<open>create_custom_init\<close>\<close>

text \<open>\<^verbatim>\<open>_wrap\<close>: \<^verbatim>\<open>f'"{v}"'\<close>. \<open>CHR 0x22\<close> is the double quote, \<open>CHR 0x0A\<close> the newline.\<close>

definition wrap :: "string \<Rightarrow> string" where
  "wrap v = [CHR 0x22] @ v @ [CHR 0x22]"

text \<open>\<^verbatim>\<open>"{} = {},".format(key, value)\<close>.\<close>

definition inventory_line :: "string \<times> int \<Rightarrow> string" where
  "inventory_line kv = fst kv @ '' = '' @ str_int (snd kv) @ '',''"

text \<open>The \<^verbatim>\<open>replacement\<close> dictionary, in the order it is written.\<close>

definition replacement :: "(string \<times> int) list \<Rightarrow> location \<Rightarrow> (string \<times> string) list" where
  "replacement inventory starting_loc =
     [(''new_game_inventory'', str_join [CHR 0x0A] (map inventory_line inventory)),
      (''starting_scenario'', wrap (loc_scenario starting_loc)),
      (''starting_actor'', wrap (loc_actor starting_loc))]"

text \<open>\<^verbatim>\<open>f'TEMPLATE("{key}")'\<close>.\<close>

definition placeholder :: "string \<Rightarrow> string" where
  "placeholder key = ''TEMPLATE('' @ [CHR 0x22] @ key @ [CHR 0x22] @ '')''"

text \<open>
  The loop \<^verbatim>\<open>for key, content in replacement.items(): code = code.replace(...)\<close>.
\<close>

fun replace_each :: "(string \<times> string) list \<Rightarrow> string \<Rightarrow> string" where
  "replace_each [] code = code"
| "replace_each (kc # rest) code =
     replace_each rest (str_replace (placeholder (fst kc)) (snd kc) code)"

text \<open>
  \<^verbatim>\<open>custom_init.lua\<close> is a file beside the module; \<open>None\<close> is the file that cannot be
  read. The dictionary is built before the file is read.
\<close>

definition read_file :: "'a option \<Rightarrow> 'a result" where
  "read_file f = (case f of None \<Rightarrow> Inl FileNotFoundError | Some x \<Rightarrow> Inr x)"

definition create_custom_init ::
  "string option \<Rightarrow> (string \<times> int) list \<Rightarrow> location \<Rightarrow> string result" where
  "create_custom_init custom_init_lua inventory starting_loc =
     (let repl = replacement inventory starting_loc
      in rbind (read_file custom_init_lua) (\<lambda>code. Inr (replace_each repl code)))"

text \<open>\<^verbatim>\<open>.encode("ascii")\<close>.\<close>

definition encode_ascii :: "string \<Rightarrow> string result" where
  "encode_ascii s =
     (if list_all (\<lambda>c. (of_char c :: nat) < 128) s then Inr s else Inl UnicodeEncodeError)"

section \<open>The synthesized actor definition of one pickup\<close>

text \<open>
  \<^verbatim>\<open>template_powerup_bmsad.json\<close> is a file beside the module; its content is a
  parameter here. The definitions of this section are the part of the body of the loop of
  \<^verbatim>\<open>patch_pickups\<close> that builds \<^verbatim>\<open>new_template\<close> (lines 112 to 152).

  \<^verbatim>\<open>set_custom_params[name]["value"] = v\<close>:
\<close>

definition set_param_value :: "json \<Rightarrow> string \<Rightarrow> json \<Rightarrow> json result" where
  "set_param_value params name v =
     rbind (getitem params name) (\<lambda>p.
     rbind (setitem p ''value'' v) (\<lambda>p'.
     Inr (put params name p')))"

text \<open>
  Lines 146 to 152: parameters 1 and 2, and \<^verbatim>\<open>Param13\<close> when \<^verbatim>\<open>quantity > 1\<close>. The
  item id and the quantity are the local variables at that point, after the
  item-specific rewrite.
\<close>

definition set_item_params :: "json \<Rightarrow> string \<Rightarrow> number \<Rightarrow> json result" where
  "set_item_params params item quant =
     rbind (set_param_value params ''Param1'' (JStr item)) (\<lambda>p1.
     rbind (set_param_value p1 ''Param2'' (JNum quant)) (\<lambda>p2.
     if gt_one quant
     then setitem p2 ''Param13'' (JObj [(''type'', JStr ''f''), (''value'', JNum quant)])
     else Inr p2))"

text \<open>
  Lines 134 to 152: the item-specific rewrite, then the common part. For an energy tank
  the product of line 136 comes before the three parameters are written.
\<close>

definition set_custom_params :: "json \<Rightarrow> string \<Rightarrow> number \<Rightarrow> json result" where
  "set_custom_params params item quant =
     (if item = ''ITEM_ENERGY_TANKS'' then
        rbind (mul_float quant 100) (\<lambda>quant100.
        rbind (set_param_value params ''Param4'' (JStr ''Full'')) (\<lambda>p4.
        rbind (set_param_value p4 ''Param5'' (JStr ''fCurrentLife'')) (\<lambda>p5.
        rbind (set_param_value p5 ''Param6'' (JStr ''LIFE'')) (\<lambda>p6.
        set_item_params p6 ''fMaxLife'' quant100))))
      else if item \<in> {''ITEM_WEAPON_MISSILE_MAX'', ''ITEM_WEAPON_POWER_BOMB_MAX''} then
        rbind (set_param_value params ''Param4'' (JStr ''Custom'')) (\<lambda>p4.
        rbind (set_param_value p4 ''Param5''
                 (JStr (str_replace ''_MAX'' ''_CURRENT'' item))) (\<lambda>p5.
        rbind (set_param_value p5 ''Param8''
                 (JStr ''guicallbacks.OnSecondaryGunsFire'')) (\<lambda>p8.
        set_item_params p8 item quant)))
      else set_item_params params item quant)"

text \<open>
  Lines 112 to 152. \<^verbatim>\<open>copy.deepcopy\<close> gives a value of its own, which a HOL value is
  already. The order of the reads and writes is the order of the source, so the first
  failure is the source's.
\<close>

definition make_new_template :: "json \<Rightarrow> nat \<Rightarrow> pickup \<Rightarrow> json result" where
  "make_new_template template_bmsad i pk =
     rbind (setitem template_bmsad ''name'' (JStr (''randomizer_powerup_'' @ str_nat i))) (\<lambda>t1.
     rbind (getitem t1 ''property'') (\<lambda>property.
     rbind (getitem property ''components'') (\<lambda>components.
     rbind (getitem components ''PICKABLE'') (\<lambda>pickable.
     rbind (getitem pickable ''fields'') (\<lambda>fields.
     rbind (getitem fields ''fields'') (\<lambda>fields2.
     rbind (setitem fields2 ''sOnPickCaption'' (JStr (caption pk))) (\<lambda>fields3.
     rbind (setitem fields3 ''sOnPickTankUnknownCaption'' (JStr (caption pk))) (\<lambda>fields4.
     (let pickable1 = put pickable ''fields'' (put fields ''fields'' fields4) in
     rbind (getitem pickable1 ''functions'') (\<lambda>functions.
     rbind (getitem0 functions) (\<lambda>function0.
     rbind (getitem function0 ''params'') (\<lambda>params.
     rbind (set_custom_params params (item_id pk) (quantity pk)) (\<lambda>params'.
     Inr (put t1 ''property''
           (put property ''components''
             (put components ''PICKABLE''
               (put pickable1 ''functions''
                 (put0 functions (put function0 ''params'' params'))))))
     )))))))))))))"

text \<open>Reading the finished template: the parameter list and one parameter's value.\<close>

definition pickable_params :: "json \<Rightarrow> json result" where
  "pickable_params t =
     rbind (getitem t ''property'') (\<lambda>property.
     rbind (getitem property ''components'') (\<lambda>components.
     rbind (getitem components ''PICKABLE'') (\<lambda>pickable.
     rbind (getitem pickable ''functions'') (\<lambda>functions.
     rbind (getitem0 functions) (\<lambda>function0.
     getitem function0 ''params'')))))"

definition param_value :: "json \<Rightarrow> string \<Rightarrow> json result" where
  "param_value params name = rbind (getitem params name) (\<lambda>p. getitem p ''value'')"

text \<open>The item id and the quantity after the item-specific rewrite (lines 134 to 136).\<close>

definition rewritten_item_id :: "string \<Rightarrow> string" where
  "rewritten_item_id item = (if item = ''ITEM_ENERGY_TANKS'' then ''fMaxLife'' else item)"

definition rewritten_quantity :: "string \<Rightarrow> number \<Rightarrow> number result" where
  "rewritten_quantity item quant =
     (if item = ''ITEM_ENERGY_TANKS'' then mul_float quant 100 else Inr quant)"

section \<open>Scene resources and the file-tree editor\<close>

text \<open>
  \<^verbatim>\<open>Brfld\<close>, \<^verbatim>\<open>Bmsad\<close> and \<^verbatim>\<open>FileTreeEditor\<close> belong to the library
  \<^verbatim>\<open>mercury_engine_data_structures\<close>, not to this repository. They are modelled by what
  the patcher uses of them.

  A scene (\<^verbatim>\<open>Brfld\<close>) maps a layer name to the actors of the layer by name
  (\<^verbatim>\<open>actors_for_layer\<close>). An actor has its components by name (\<^verbatim>\<open>pComponents\<close>, each a
  container of named fields) and the link to its actor definition.
\<close>

type_synonym component = "(string \<times> json) list"

record scene_actor =
  pComponents :: "(string \<times> component) list"
  oActorDefLink :: string

type_synonym brfld = "(string \<times> (string \<times> scene_actor) list) list"

text \<open>\<^verbatim>\<open>d[k]\<close> on a dictionary.\<close>

definition dict_get :: "(string \<times> 'v) list \<Rightarrow> string \<Rightarrow> 'v result" where
  "dict_get d k = (case map_of d k of None \<Rightarrow> Inl KeyError | Some v \<Rightarrow> Inr v)"

definition actors_for_layer :: "brfld \<Rightarrow> string \<Rightarrow> (string \<times> scene_actor) list result" where
  "actors_for_layer level l = dict_get level l"

text \<open>\<^verbatim>\<open>level.actors_for_layer(ref["layer"])[ref["actor"]]\<close>.\<close>

definition actor_of :: "brfld \<Rightarrow> actor_reference \<Rightarrow> scene_actor result" where
  "actor_of level ref = rbind (actors_for_layer level (layer ref)) (\<lambda>actors. dict_get actors (actor ref))"

text \<open>
  The source changes the actor object in place, inside the scene it was read from. Here
  the changed actor is stored back at its layer and name.
\<close>

definition store_actor :: "brfld \<Rightarrow> actor_reference \<Rightarrow> scene_actor \<Rightarrow> brfld" where
  "store_actor level ref a =
     (case map_of level (layer ref) of
        None \<Rightarrow> level
      | Some actors \<Rightarrow> AList.update (layer ref) (AList.update (actor ref) a actors) level)"

text \<open>
  The content of an asset: bytes, a scene or an actor definition. How a resource is
  encoded as bytes is the library's business: an asset is its content here.
  \<open>format\<close> is the \<^verbatim>\<open>type_hint\<close> of a read.
\<close>

datatype resource = Bytes string | BrfldRes brfld | BmsadRes json

datatype format = BaseResource | Brfld | Bmsad

definition has_format :: "format \<Rightarrow> resource \<Rightarrow> bool" where
  "has_format f r =
     (case f of
        BaseResource \<Rightarrow> True
      | Brfld \<Rightarrow> (case r of BrfldRes _ \<Rightarrow> True | _ \<Rightarrow> False)
      | Bmsad \<Rightarrow> (case r of BmsadRes _ \<Rightarrow> True | _ \<Rightarrow> False))"

text \<open>
  The editor holds the assets by path and, for every package (container group), the
  paths it contains. Two logs record calls and are read by no operation:
  \<open>parse_log\<close> the paths \<^verbatim>\<open>get_parsed_asset\<close> was asked to parse, \<open>added_log\<close> the
  calls of \<^verbatim>\<open>add_new_asset\<close> for a path that did not exist yet, each with its path, its
  content and the packages it was targeted at.
\<close>

record file_tree_editor =
  assets :: "(string \<times> resource) list"
  packages :: "(string \<times> string list) list"
  parse_log :: "string list"
  added_log :: "(string \<times> resource \<times> string list) list"

text \<open>\<^verbatim>\<open>class PatcherEditor(FileTreeEditor)\<close> adds the cache \<^verbatim>\<open>memory_files\<close>.\<close>

record patcher_editor = file_tree_editor +
  memory_files :: "(string \<times> resource) list"

text \<open>
  An operation on the editor returns its result, or its error, and the editor as the
  operation left it: an exception does not undo what was done before it.
\<close>

definition sbind ::
  "'a result \<times> 's \<Rightarrow> ('a \<Rightarrow> 's \<Rightarrow> 'b result \<times> 's) \<Rightarrow> 'b result \<times> 's" where
  "sbind m f = (case fst m of Inl e \<Rightarrow> (Inl e, snd m) | Inr x \<Rightarrow> f x (snd m))"

definition does_asset_exists :: "'a file_tree_editor_scheme \<Rightarrow> string \<Rightarrow> bool" where
  "does_asset_exists ed name = (map_of (assets ed) name \<noteq> None)"

definition get_raw_asset :: "'a file_tree_editor_scheme \<Rightarrow> string \<Rightarrow> resource result" where
  "get_raw_asset ed name =
     (case map_of (assets ed) name of None \<Rightarrow> Inl (UnknownAsset name) | Some r \<Rightarrow> Inr r)"

text \<open>Parsing fails on an unknown path and on content that is not of the asked format.\<close>

definition get_parsed_asset ::
  "'a file_tree_editor_scheme \<Rightarrow> string \<Rightarrow> format
     \<Rightarrow> resource result \<times> 'a file_tree_editor_scheme" where
  "get_parsed_asset ed name type_hint =
     (rbind (get_raw_asset ed name)
        (\<lambda>r. if has_format type_hint r then Inr r else Inl TypeError),
      ed\<lparr>parse_log := parse_log ed @ [name]\<rparr>)"

text \<open>The packages that contain a path, in the order of the editor's packages.\<close>

definition find_pkgs :: "'a file_tree_editor_scheme \<Rightarrow> string \<Rightarrow> string list" where
  "find_pkgs ed name = map fst (filter (\<lambda>pkg. name \<in> set (snd pkg)) (packages ed))"

text \<open>
  \<^verbatim>\<open>ensure_present(pkg, name)\<close>: an unknown package is an error; a package that has the
  path already is left as it is.
\<close>

definition ensure_present ::
  "'a file_tree_editor_scheme \<Rightarrow> string \<Rightarrow> string
     \<Rightarrow> unit result \<times> 'a file_tree_editor_scheme" where
  "ensure_present ed pkg name =
     (case map_of (packages ed) pkg of
        None \<Rightarrow> (Inl (UnknownPkg pkg), ed)
      | Some files \<Rightarrow>
          (Inr (),
           if name \<in> set files then ed
           else ed\<lparr>packages := AList.update pkg (files @ [name]) (packages ed)\<rparr>))"

fun ensure_present_in ::
  "'a file_tree_editor_scheme \<Rightarrow> string list \<Rightarrow> string
     \<Rightarrow> unit result \<times> 'a file_tree_editor_scheme" where
  "ensure_present_in ed [] name = (Inr (), ed)"
| "ensure_present_in ed (pkg # pkgs) name =
     sbind (ensure_present ed pkg name) (\<lambda>_ ed1. ensure_present_in ed1 pkgs name)"

text \<open>
  \<^verbatim>\<open>add_new_asset(name, data, in_pkgs)\<close>: an existing path is an error; otherwise the
  asset is stored and made present in every package of \<open>in_pkgs\<close>.
\<close>

definition add_new_asset ::
  "'a file_tree_editor_scheme \<Rightarrow> string \<Rightarrow> resource \<Rightarrow> string list
     \<Rightarrow> unit result \<times> 'a file_tree_editor_scheme" where
  "add_new_asset ed name new_data in_pkgs =
     (if does_asset_exists ed name then (Inl (AssetAlreadyExists name), ed)
      else ensure_present_in
             (ed\<lparr>assets := assets ed @ [(name, new_data)],
                 added_log := added_log ed @ [(name, new_data, in_pkgs)]\<rparr>)
             in_pkgs name)"

text \<open>\<^verbatim>\<open>replace_asset(name, data)\<close>: an unknown path is an error.\<close>

definition replace_asset ::
  "'a file_tree_editor_scheme \<Rightarrow> string \<Rightarrow> resource
     \<Rightarrow> unit result \<times> 'a file_tree_editor_scheme" where
  "replace_asset ed name new_data =
     (if does_asset_exists ed name
      then (Inr (), ed\<lparr>assets := AList.update name new_data (assets ed)\<rparr>)
      else (Inl (UnknownAsset name), ed))"

section \<open>The module's functions\<close>

definition path_for_level :: "string \<Rightarrow> string" where
  "path_for_level level_name = ''maps/levels/c10_samus/'' @ level_name @ ''/'' @ level_name"

definition original_init :: string where
  "original_init = ''system/scripts/original_init.lc''"

definition create_init_copy ::
  "'a file_tree_editor_scheme \<Rightarrow> unit result \<times> 'a file_tree_editor_scheme" where
  "create_init_copy editor =
     (if \<not> does_asset_exists editor original_init then
        (case get_raw_asset editor ''system/scripts/init.lc'' of
           Inl e \<Rightarrow> (Inl e, editor)
         | Inr original_lc \<Rightarrow>
             add_new_asset editor original_init original_lc
               (find_pkgs editor ''system/scripts/init.lc''))
      else (Inr (), editor))"

subsection \<open>\<^verbatim>\<open>PatcherEditor\<close>\<close>

text \<open>
  \<^verbatim>\<open>PatcherEditor(root)\<close> reads the tree and starts with an empty cache. The two logs
  are those of this editor, so they start empty too.
\<close>

definition PatcherEditor :: "file_tree_editor \<Rightarrow> patcher_editor" where
  "PatcherEditor tree =
     \<lparr>assets = assets tree, packages = packages tree, parse_log = [],
      added_log = [], memory_files = []\<rparr>"

definition get_file :: "patcher_editor \<Rightarrow> string \<Rightarrow> format \<Rightarrow> resource result \<times> patcher_editor" where
  "get_file self path type_hint =
     (case map_of (memory_files self) path of
        Some r \<Rightarrow> (Inr r, self)
      | None \<Rightarrow>
          sbind (get_parsed_asset self path type_hint) (\<lambda>r self1.
            (Inr r, self1\<lparr>memory_files := AList.update path r (memory_files self1)\<rparr>)))"

text \<open>
  \<^verbatim>\<open>get_scenario\<close> returns what \<^verbatim>\<open>get_file\<close> returns. Both callers call
  \<^verbatim>\<open>actors_for_layer\<close> on it at once, which only a scene has: the \<^verbatim>\<open>AttributeError\<close>
  of any other cached resource is raised here.
\<close>

definition get_scenario :: "patcher_editor \<Rightarrow> string \<Rightarrow> brfld result \<times> patcher_editor" where
  "get_scenario self name =
     sbind (get_file self (path_for_level name @ ''.brfld'') Brfld) (\<lambda>r self1.
       case r of BrfldRes level \<Rightarrow> (Inr level, self1) | _ \<Rightarrow> (Inl AttributeError, self1))"

fun replace_assets ::
  "patcher_editor \<Rightarrow> (string \<times> resource) list \<Rightarrow> unit result \<times> patcher_editor" where
  "replace_assets self [] = (Inr (), self)"
| "replace_assets self (item # rest) =
     sbind (replace_asset self (fst item) (snd item)) (\<lambda>_ self1. replace_assets self1 rest)"

definition flush_modified_assets :: "patcher_editor \<Rightarrow> unit result \<times> patcher_editor" where
  "flush_modified_assets self =
     sbind (replace_assets self (memory_files self)) (\<lambda>_ self1.
       (Inr (), self1\<lparr>memory_files := []\<rparr>))"

text \<open>
  The scene a patcher changes is the cached object itself, so the changed scene is the
  cache entry of its path.
\<close>

definition store_level :: "patcher_editor \<Rightarrow> string \<Rightarrow> brfld \<Rightarrow> patcher_editor" where
  "store_level self name level =
     self\<lparr>memory_files :=
            AList.update (path_for_level name @ ''.brfld'') (BrfldRes level) (memory_files self)\<rparr>"

subsection \<open>\<^verbatim>\<open>patch_elevators\<close>\<close>

text \<open>The body of the loop, for one elevator.\<close>

definition patch_elevator :: "patcher_editor \<Rightarrow> elevator \<Rightarrow> unit result \<times> patcher_editor" where
  "patch_elevator editor el =
     sbind (get_scenario editor (scenario (teleporter el))) (\<lambda>level ed1.
       case actor_of level (teleporter el) of
         Inl e \<Rightarrow> (Inl e, ed1)
       | Inr a \<Rightarrow>
           (case map_of (pComponents a) ''USABLE'' of
              None \<Rightarrow> (Inl (ActorIsNotATeleporter (teleporter el)), ed1)
            | Some usable \<Rightarrow>
                (let usable1 = AList.update ''sScenarioName''
                                 (JStr (loc_scenario (destination el))) usable;
                     usable2 = AList.update ''sTargetSpawnPoint''
                                 (JStr (loc_actor (destination el))) usable1;
                     a' = a\<lparr>pComponents := AList.update ''USABLE'' usable2 (pComponents a)\<rparr>
                 in (Inr (),
                     store_level ed1 (scenario (teleporter el))
                       (store_actor level (teleporter el) a')))))"

fun patch_elevators :: "patcher_editor \<Rightarrow> elevator list \<Rightarrow> unit result \<times> patcher_editor" where
  "patch_elevators editor [] = (Inr (), editor)"
| "patch_elevators editor (el # rest) =
     sbind (patch_elevator editor el) (\<lambda>_ ed1. patch_elevators ed1 rest)"

subsection \<open>\<^verbatim>\<open>patch_pickups\<close>\<close>

text \<open>
  A Python \<^verbatim>\<open>set\<close> of package names is a list without repetition; the order Python
  iterates it in is not specified, and here it is the order of the list.
  \<^verbatim>\<open>set(xs)\<close> is \<^const>\<open>remdups\<close>, \<^verbatim>\<open>s.update(t)\<close> is \<open>set_update\<close>.
\<close>

definition set_update :: "string list \<Rightarrow> string list \<Rightarrow> string list" where
  "set_update s t = s @ filter (\<lambda>x. x \<notin> set s) (remdups t)"

definition model_dependencies :: "string list" where
  "model_dependencies =
     [''actors/items/itemsphere/animations/relax.bcskla'',
      ''actors/items/itemsphere/charclasses/timeline.bmsas'',
      ''actors/items/itemsphere/collisions/itemsphere.bmscd'',
      ''actors/items/itemsphere/fx/impact.bcptl'',
      ''actors/items/itemsphere/fx/impact_itemsphere.bcmdl'',
      ''actors/items/itemsphere/fx/impact_itemsphere.bcskla'',
      ''actors/items/itemsphere/fx/imats/impact_itemsphere_itemsphere.bsmat'',
      ''actors/items/itemsphere/models/itemsphere.bcmdl'',
      ''actors/items/itemsphere/models/imats/itemsphere_mp_opaque_01.bsmat'']"

text \<open>What the body of \<^verbatim>\<open>for level_pkg in pkgs_for_level\<close> ensures, in its order.\<close>

definition level_pkg_dependencies :: "string list" where
  "level_pkg_dependencies =
     [''system/animtrees/base.bmsat'',
      ''actors/items/itemsphere/charclasses/timeline.bmsas''] @ model_dependencies"

fun ensure_all_present ::
  "patcher_editor \<Rightarrow> string \<Rightarrow> string list \<Rightarrow> unit result \<times> patcher_editor" where
  "ensure_all_present editor level_pkg [] = (Inr (), editor)"
| "ensure_all_present editor level_pkg (dep # deps) =
     sbind (ensure_present editor level_pkg dep) (\<lambda>_ ed1. ensure_all_present ed1 level_pkg deps)"

fun ensure_dependencies ::
  "patcher_editor \<Rightarrow> string list \<Rightarrow> unit result \<times> patcher_editor" where
  "ensure_dependencies editor [] = (Inr (), editor)"
| "ensure_dependencies editor (level_pkg # rest) =
     sbind (ensure_all_present editor level_pkg level_pkg_dependencies)
       (\<lambda>_ ed1. ensure_dependencies ed1 rest)"

definition level_path :: "pickup \<Rightarrow> string" where
  "level_path pk = path_for_level (scenario (pickup_actor pk)) @ ''.brfld''"

definition new_path :: "nat \<Rightarrow> string" where
  "new_path i =
     ''actors/items/randomizer_powerup/charclasses/randomizer_powerup_'' @ str_nat i @ ''.bmsad''"

definition powerup_lc :: string where
  "powerup_lc = ''actors/items/randomizer_powerup/scripts/randomizer_powerup.lc''"

text \<open>
  The body of the loop for pickup \<open>i\<close> (lines 105 to 166). It takes the set
  \<^verbatim>\<open>pkgs_for_lua\<close> and returns it updated.
\<close>

definition patch_pickup ::
  "patcher_editor \<Rightarrow> json \<Rightarrow> nat \<Rightarrow> pickup \<Rightarrow> string list
     \<Rightarrow> string list result \<times> patcher_editor" where
  "patch_pickup editor template_bmsad i pk pkgs_for_lua =
     (let pkgs_for_level = remdups (find_pkgs editor (level_path pk));
          pkgs_for_lua1 = set_update pkgs_for_lua pkgs_for_level
      in sbind (get_scenario editor (scenario (pickup_actor pk))) (\<lambda>level ed1.
         case actor_of level (pickup_actor pk) of
           Inl e \<Rightarrow> (Inl e, ed1)
         | Inr a \<Rightarrow>
             (case make_new_template template_bmsad i pk of
                Inl e \<Rightarrow> (Inl e, ed1)
              | Inr new_template \<Rightarrow>
                  sbind (add_new_asset ed1 (new_path i) (BmsadRes new_template) pkgs_for_level)
                    (\<lambda>_ ed2.
                  (let a' = a\<lparr>oActorDefLink := ''actordef:'' @ new_path i,
                               pComponents := AList.delete ''LIFE'' (pComponents a)\<rparr>;
                       ed3 = store_level ed2 (scenario (pickup_actor pk))
                               (store_actor level (pickup_actor pk) a')
                   in sbind (ensure_dependencies ed3 pkgs_for_level)
                        (\<lambda>_ ed4. (Inr pkgs_for_lua1, ed4)))))))"

fun patch_pickups_loop ::
  "patcher_editor \<Rightarrow> json \<Rightarrow> nat \<Rightarrow> pickup list \<Rightarrow> string list
     \<Rightarrow> string list result \<times> patcher_editor" where
  "patch_pickups_loop editor template_bmsad i [] pkgs_for_lua = (Inr pkgs_for_lua, editor)"
| "patch_pickups_loop editor template_bmsad i (pk # rest) pkgs_for_lua =
     sbind (patch_pickup editor template_bmsad i pk pkgs_for_lua)
       (\<lambda>pkgs_for_lua1 ed1. patch_pickups_loop ed1 template_bmsad (Suc i) rest pkgs_for_lua1)"

text \<open>
  \<^verbatim>\<open>template_powerup_bmsad.json\<close> is read first, \<^verbatim>\<open>randomizer_powerup.lua\<close> after the
  loop.
\<close>

definition patch_pickups ::
  "patcher_editor \<Rightarrow> json option \<Rightarrow> string option \<Rightarrow> pickup list
     \<Rightarrow> unit result \<times> patcher_editor" where
  "patch_pickups editor template_file lua_file pickups_config =
     (case read_file template_file of
        Inl e \<Rightarrow> (Inl e, editor)
      | Inr template_bmsad \<Rightarrow>
          sbind (patch_pickups_loop editor template_bmsad 0 pickups_config [])
            (\<lambda>pkgs_for_lua ed1.
               case read_file lua_file of
                 Inl e \<Rightarrow> (Inl e, ed1)
               | Inr lua \<Rightarrow> add_new_asset ed1 powerup_lc (Bytes lua) pkgs_for_lua))"

subsection \<open>\<^verbatim>\<open>patch\<close>\<close>

text \<open>
  The files beside the module, each \<open>None\<close> when it cannot be read. \<^verbatim>\<open>schema.json\<close>
  is read through \<^verbatim>\<open>jsonschema.validate\<close> only: it is the set of configurations it
  accepts.
\<close>

record companion_files =
  schema_json :: "(configuration \<Rightarrow> bool) option"
  template_powerup_bmsad_json :: "json option"
  randomizer_powerup_lua :: "string option"
  custom_init_lua :: "string option"

definition validate :: "companion_files \<Rightarrow> configuration \<Rightarrow> unit result" where
  "validate files cfg =
     rbind (read_file (schema_json files))
       (\<lambda>accepts. if accepts cfg then Inr () else Inl ValidationError)"

text \<open>
  The output directory \<^verbatim>\<open>romfs\<close>: \<open>None\<close> when it does not exist, else the tree
  that was exported into it. \<^verbatim>\<open>shutil.rmtree\<close> raises on a directory that does not exist.
\<close>

type_synonym romfs = "(string \<times> resource) list \<times> (string \<times> string list) list"

definition rmtree :: "romfs option \<Rightarrow> unit result \<times> romfs option" where
  "rmtree dir = (case dir of None \<Rightarrow> (Inl FileNotFoundError, None) | Some _ \<Rightarrow> (Inr (), None))"

definition save_modified_pkgs :: "patcher_editor \<Rightarrow> romfs option \<Rightarrow> romfs option" where
  "save_modified_pkgs editor dir = Some (assets editor, packages editor)"

text \<open>Lines 186 to 199: everything between the validation and the deletion.\<close>

definition patch_edits ::
  "companion_files \<Rightarrow> patcher_editor \<Rightarrow> configuration \<Rightarrow> unit result \<times> patcher_editor" where
  "patch_edits files editor cfg =
     sbind (create_init_copy editor) (\<lambda>_ ed1.
       case rbind (create_custom_init (custom_init_lua files) (starting_items cfg)
                     (starting_location cfg)) encode_ascii of
         Inl e \<Rightarrow> (Inl e, ed1)
       | Inr code \<Rightarrow>
           sbind (replace_asset ed1 ''system/scripts/init.lc'' (Bytes code)) (\<lambda>_ ed2.
           sbind (case elevators cfg of
                    None \<Rightarrow> (Inr (), ed2)
                  | Some elevators_config \<Rightarrow> patch_elevators ed2 elevators_config) (\<lambda>_ ed3.
           sbind (patch_pickups ed3 (template_powerup_bmsad_json files)
                    (randomizer_powerup_lua files) (pickups cfg)) (\<lambda>_ ed4.
           flush_modified_assets ed4))))"

text \<open>
  \<^verbatim>\<open>patch\<close>: its result, the editor as it was left and the output directory as it
  was left. \<open>input_tree\<close> is what \<^verbatim>\<open>PatcherEditor(input_path)\<close> reads.
\<close>

definition patch ::
  "companion_files \<Rightarrow> file_tree_editor \<Rightarrow> romfs option \<Rightarrow> configuration
     \<Rightarrow> unit result \<times> patcher_editor \<times> romfs option" where
  "patch files input_tree out_romfs cfg =
     (case validate files cfg of
        Inl e \<Rightarrow> (Inl e, PatcherEditor input_tree, out_romfs)
      | Inr _ \<Rightarrow>
          (case patch_edits files (PatcherEditor input_tree) cfg of
             (Inl e, editor) \<Rightarrow> (Inl e, editor, out_romfs)
           | (Inr _, editor) \<Rightarrow>
               (case rmtree out_romfs of
                  (Inl e, dir) \<Rightarrow> (Inl e, editor, dir)
                | (Inr _, dir) \<Rightarrow> (Inr (), editor, save_modified_pkgs editor dir))))"

section \<open>What an operation leaves behind\<close>

text \<open>
  \<open>post m E Q\<close>: the operation \<open>m\<close> ends with an error in an editor where \<open>E\<close>
  holds, or with a result and an editor where \<open>Q\<close> holds.
\<close>

definition post :: "'a result \<times> 's \<Rightarrow> ('s \<Rightarrow> bool) \<Rightarrow> ('a \<Rightarrow> 's \<Rightarrow> bool) \<Rightarrow> bool" where
  "post m E Q = (case fst m of Inl e \<Rightarrow> E (snd m) | Inr x \<Rightarrow> Q x (snd m))"

text \<open>
  The cache of a run: no path is cached twice, every cached path is an asset of the
  repository, no path was parsed twice, and every parsed path is cached.
\<close>

definition cache_inv :: "patcher_editor \<Rightarrow> bool" where
  "cache_inv ed =
     (distinct (map fst (memory_files ed)) \<and>
      fst ` set (memory_files ed) \<subseteq> fst ` set (assets ed) \<and>
      distinct (parse_log ed) \<and>
      set (parse_log ed) \<subseteq> fst ` set (memory_files ed))"

text \<open>An operation of the repository leaves the cache and the parse log alone and loses no asset.\<close>

definition same_cache :: "patcher_editor \<Rightarrow> patcher_editor \<Rightarrow> bool" where
  "same_cache ed ed' =
     (memory_files ed' = memory_files ed \<and> parse_log ed' = parse_log ed \<and>
      fst ` set (assets ed) \<subseteq> fst ` set (assets ed'))"

text \<open>The packages after \<^verbatim>\<open>ensure_present(pkg, name)\<close> on a known package.\<close>

definition with_asset ::
  "string \<Rightarrow> string \<Rightarrow> (string \<times> string list) list \<Rightarrow> (string \<times> string list) list" where
  "with_asset name pkg ps =
     (case map_of ps pkg of
        None \<Rightarrow> ps
      | Some files \<Rightarrow> if name \<in> set files then ps else AList.update pkg (files @ [name]) ps)"

section \<open>Decimal texts\<close>



section \<open>Example inputs\<close>

text \<open>
  Concrete inputs on which the functions are run: a template of the shape
  \<^verbatim>\<open>patch_pickups\<close> reads, with the parameters it writes, and a pickup.
\<close>

definition example_params :: json where
  "example_params =
     JObj [(''Param1'', JObj [(''type'', JStr ''s''), (''value'', JStr '''')]),
           (''Param2'', JObj [(''type'', JStr ''f''), (''value'', JNum (PyFloat 0))]),
           (''Param4'', JObj [(''type'', JStr ''s''), (''value'', JStr '''')]),
           (''Param5'', JObj [(''type'', JStr ''s''), (''value'', JStr '''')]),
           (''Param6'', JObj [(''type'', JStr ''s''), (''value'', JStr '''')]),
           (''Param8'', JObj [(''type'', JStr ''s''), (''value'', JStr '''')])]"

definition example_template :: json where
  "example_template =
     JObj [(''name'', JStr ''randomizer_powerup''),
           (''property'', JObj [(''components'', JObj [(''PICKABLE'',
              JObj [(''fields'', JObj [(''fields'',
                       JObj [(''sOnPickCaption'', JStr ''''),
                             (''sOnPickTankUnknownCaption'', JStr '''')])]),
                    (''functions'', JArr [JObj [(''name'', JStr ''SetCustomParams''),
                                                (''params'', example_params)]])])])])]"

definition example_pickup :: "string \<Rightarrow> number \<Rightarrow> pickup" where
  "example_pickup item quant =
     \<lparr>pickup_actor = \<lparr>scenario = ''s010_cave'', layer = ''default'', actor = ''ItemSphere_000''\<rparr>,
      item_id = item, quantity = quant, caption = ''Energy Tank acquired.''\<rparr>"




text \<open>
  A scene with a teleporter, a door and an item sphere, a tree that holds it, and an
  editor that has the scene cached in an edited form.
\<close>

definition cave_brfld :: string where
  "cave_brfld = ''maps/levels/c10_samus/s010_cave/s010_cave.brfld''"

definition example_scene :: brfld where
  "example_scene =
     [(''default'',
       [(''elevator_000'',
         \<lparr>pComponents =
            [(''USABLE'', [(''sScenarioName'', JStr ''s020_magma''),
                           (''sTargetSpawnPoint'', JStr ''StartPoint0''),
                           (''bUsable'', JBool True)]),
             (''MODELUPDATER'', [])],
          oActorDefLink = ''actordef:actors/props/elevator/charclasses/elevator.bmsad''\<rparr>),
        (''door_000'',
         \<lparr>pComponents = [(''LIFE'', [(''fMaxLife'', JNum (PyFloat 1))])],
          oActorDefLink = ''actordef:actors/props/door/charclasses/door.bmsad''\<rparr>),
        (''ItemSphere_000'',
         \<lparr>pComponents = [(''LIFE'', []), (''PICKABLE'', [])],
          oActorDefLink = ''actordef:actors/items/itemsphere/charclasses/itemsphere.bmsad''\<rparr>)])]"

definition example_tree :: file_tree_editor where
  "example_tree =
     \<lparr>assets = [(''system/scripts/init.lc'', Bytes ''init''),
                (cave_brfld, BrfldRes example_scene)],
      packages = [(''packs/system/system.pkg'', [''system/scripts/init.lc'']),
                  (''packs/maps/s010_cave/s010_cave.pkg'', [cave_brfld])],
      parse_log = [], added_log = []\<rparr>"

definition example_cached :: patcher_editor where
  "example_cached =
     \<lparr>assets = assets example_tree, packages = packages example_tree,
      parse_log = [cave_brfld], added_log = [],
      memory_files = [(cave_brfld, BrfldRes [(''default'', [])])]\<rparr>"

text \<open>A warp edit on an actor of the example scene, to another scenario.\<close>

definition example_elevator :: "string \<Rightarrow> elevator" where
  "example_elevator name =
     \<lparr>teleporter = \<lparr>scenario = ''s010_cave'', layer = ''default'', actor = name\<rparr>,
      destination = \<lparr>loc_scenario = ''s030_baselab'', loc_actor = ''StartPoint1''\<rparr>\<rparr>"

(*EXAMPLES_END*)

section \<open>Rounding to a double\<close>

lemma rbind_Inl [simp]: "rbind (Inl e) f = Inl e"
  by (simp add: rbind_def)

lemma rbind_Inr [simp]: "rbind (Inr x) f = f x"
  by (simp add: rbind_def)

lemma rbind_eq_Inr: "rbind r f = Inr y \<longleftrightarrow> (\<exists>x. r = Inr x \<and> f x = Inr y)"
  by (cases r) simp_all

lemma round_half_even_int [simp]: "round_half_even (of_int k) = k"
  by (simp add: round_half_even_def)

lemma double_exponent_int:
  assumes "m \<noteq> 0" and "\<bar>real_of_int m\<bar> < 2 ^ 53"
  shows "double_exponent (of_int m) = \<lfloor>log 2 \<bar>of_int m\<bar>\<rfloor> - 52"
    and "\<lfloor>log 2 \<bar>real_of_int m\<bar>\<rfloor> \<le> 52" and "0 \<le> \<lfloor>log 2 \<bar>real_of_int m\<bar>\<rfloor>"
proof -
  have pos: "1 \<le> \<bar>real_of_int m\<bar>" using assms(1) by (simp flip: of_int_abs)
  then have "0 \<le> log 2 \<bar>real_of_int m\<bar>" by simp
  then show lo: "0 \<le> \<lfloor>log 2 \<bar>real_of_int m\<bar>\<rfloor>" by simp
  have "log 2 \<bar>real_of_int m\<bar> < log 2 (2 ^ 53)"
    using pos assms(2) by (subst log_less_cancel_iff) simp_all
  moreover have "log 2 ((2::real) ^ 53) = 53"
    using log_pow_cancel[of "2::real" 53] by simp
  ultimately have "log 2 \<bar>real_of_int m\<bar> < 53" by simp
  then show hi: "\<lfloor>log 2 \<bar>real_of_int m\<bar>\<rfloor> \<le> 52"
    by (simp add: floor_le_iff)
  from lo show "double_exponent (of_int m) = \<lfloor>log 2 \<bar>of_int m\<bar>\<rfloor> - 52"
    by (simp add: double_exponent_def)
qed

lemma round_double_int:
  assumes "\<bar>real_of_int m\<bar> < 2 ^ 53"
  shows "round_double (of_int m) = of_int m"
proof (cases "m = 0")
  case True
  then show ?thesis by (simp add: round_double_def)
next
  case False
  define n where "n = nat (52 - \<lfloor>log 2 \<bar>real_of_int m\<bar>\<rfloor>)"
  have e: "double_exponent (of_int m) = - int n"
    using double_exponent_int[OF False assms] by (simp add: n_def)
  have p: "(2::real) powi (- int n) = 1 / 2 ^ n"
    by (simp add: power_int_minus divide_inverse)
  have "real_of_int m / (2 powi (- int n)) = of_int (m * 2 ^ n)"
    by (simp add: p)
  then have "round_half_even (real_of_int m / (2 powi (- int n))) = m * 2 ^ n"
    by (simp only: round_half_even_int)
  then show ?thesis
    using False by (simp add: round_double_def e p)
qed

lemma floor_log2:
  assumes "0 < x" and "2 powi k \<le> x" and "x < 2 powi (k + 1)"
  shows "\<lfloor>log 2 x\<rfloor> = k"
proof -
  have "2 powr (real_of_int k) \<le> x"
    using assms(2) by (simp add: powr_real_of_int')
  moreover have "(2::real) powr (real_of_int (k + 1)) = 2 powi (k + 1)"
    by (rule powr_real_of_int') simp_all
  then have "x < 2 powr (real_of_int (k + 1))"
    using assms(3) by (simp only:)
  ultimately show ?thesis
    using assms(1) by (subst floor_log_eq_powr_iff) simp_all
qed

text \<open>
  The double nearest to 0.01 is \<open>5764607523034235 / 2 ^ 59\<close>. Its product with 100 is
  a little more than 1 and rounds to 1: \<^verbatim>\<open>0.01 * 100.0 == 1.0\<close>.
\<close>

lemma round_double_example:
  "round_double (5764607523034235 / 2 ^ 59 * 100) = 1"
proof -
  have l: "\<lfloor>log 2 \<bar>5764607523034235 / 2 ^ 59 * 100 :: real\<bar>\<rfloor> = 0"
    by (rule floor_log2) simp_all
  have e: "double_exponent (5764607523034235 / 2 ^ 59 * 100) = - 52"
    unfolding double_exponent_def l by simp
  have f: "\<lfloor>5764607523034235 / 2 ^ 59 * 100 / 2 powi (- 52) :: real\<rfloor> = 2 ^ 52"
    by (simp add: power_int_minus floor_eq_iff)
  show ?thesis
    unfolding round_double_def e round_half_even_def Let_def f
    by (simp add: power_int_minus)
qed

text \<open>Rounding does not bring a value of \<open>2 ^ 1024\<close> or more below \<open>2 ^ 1024\<close>.\<close>

lemma round_double_large:
  assumes "2 ^ 1024 \<le> x"
  shows "2 ^ 1024 \<le> round_double x"
proof -
  have xpos: "0 < x" using assms by (smt (verit) zero_less_power)
  define L where "L = \<lfloor>log 2 x\<rfloor>"
  have "log 2 (2 ^ 1024) \<le> log 2 x"
    using assms xpos by (subst log_le_cancel_iff) simp_all
  moreover have "log 2 ((2::real) ^ 1024) = 1024"
    using log_pow_cancel[of "2::real" 1024] by simp
  ultimately have "1024 \<le> log 2 x" by simp
  then have L: "1024 \<le> L" by (simp add: L_def le_floor_iff)
  have e: "double_exponent x = L - 52"
  proof -
    have "- 1074 \<le> L - 52" using L by linarith
    moreover have "\<bar>x\<bar> = x" using xpos by simp
    ultimately show ?thesis
      unfolding double_exponent_def L_def by (simp only: max_def) simp
  qed
  have "2 powr (real_of_int L) \<le> x"
    using xpos unfolding L_def by (metis floor_log_eq_powr_iff one_less_numeral_iff semiring_norm(76))
  then have low: "2 powi L \<le> x" by (simp add: powr_real_of_int')
  have "(2::real) powi 52 \<le> x / 2 powi (L - 52)"
    using low by (simp add: power_int_diff field_simps)
  then have "(2::int) ^ 52 \<le> \<lfloor>x / 2 powi (L - 52)\<rfloor>"
    by (simp add: le_floor_iff)
  moreover have "\<lfloor>y\<rfloor> \<le> round_half_even y" for y
    by (simp add: round_half_even_def Let_def)
  ultimately have "(2::int) ^ 52 \<le> round_half_even (x / 2 powi (L - 52))"
    by (meson order_trans)
  then have "(2::real) ^ 52 \<le> of_int (round_half_even (x / 2 powi (L - 52)))"
    by (metis of_int_le_iff of_int_numeral of_int_power)
  then have "(2::real) ^ 52 * 2 powi (L - 52) \<le> round_double x"
    using xpos by (simp add: round_double_def e)
  moreover have "(2::real) ^ 52 * 2 powi (L - 52) = 2 powi L"
    by (simp add: power_int_diff)
  moreover have "(2::real) powi 1024 \<le> 2 powi L"
    using L by (intro power_int_increasing) simp_all
  ultimately show ?thesis by simp
qed

lemma float_of_int_exact:
  assumes "\<bar>real_of_int m\<bar> < 2 ^ 53"
  shows "float_of_int m = Inr (of_int m)"
proof -
  have "\<bar>real_of_int m\<bar> < 2 ^ 1024"
    using assms by (rule less_trans) simp
  then show ?thesis
    by (simp add: float_of_int_def round_double_int[OF assms])
qed

lemma float_of_real_exact:
  assumes "\<bar>real_of_int m\<bar> < 2 ^ 53"
  shows "float_of_real (of_int m) = PyFloat (of_int m)"
proof -
  have "\<bar>real_of_int m\<bar> < 2 ^ 1024"
    using assms by (rule less_trans) simp
  then show ?thesis
    by (simp add: float_of_real_def round_double_int[OF assms])
qed

text \<open>The product of a small whole number and 100.0 is exact.\<close>

lemma mul_float_whole:
  assumes "num_val n = of_int m" and "\<bar>real_of_int m\<bar> < 2 ^ 46"
    and "n = PyInt m \<or> n = PyFloat (of_int m)"
  shows "mul_float n 100 = Inr (PyFloat (of_int (m * 100)))"
proof -
  have small: "\<bar>real_of_int m\<bar> < 2 ^ 53"
    using assms(2) by (rule less_trans) simp
  have "\<bar>real_of_int m\<bar> * 100 < 2 ^ 46 * 128"
    using assms(2) by (intro mult_strict_mono) simp_all
  then have prod: "\<bar>real_of_int (m * 100)\<bar> < 2 ^ 53"
    by (simp add: abs_mult)
  have "float_of_real (real_of_int m * 100) = PyFloat (of_int (m * 100))"
    using float_of_real_exact[OF prod] by simp
  with assms(3) show ?thesis
    by (auto simp: mul_float_def float_of_int_exact[OF small])
qed

lemma mul_float_1 [simp]: "mul_float (PyInt 1) 100 = Inr (PyFloat 100)"
  using mul_float_whole[of "PyInt 1" 1] by (simp add: num_val_def)

lemma mul_float_2 [simp]: "mul_float (PyInt 2) 100 = Inr (PyFloat 200)"
  using mul_float_whole[of "PyInt 2" 2] by (simp add: num_val_def)

text \<open>
  \<^verbatim>\<open>0.01 * 100.0\<close> is \<^verbatim>\<open>1.0\<close>, which is not greater than 1, and \<^verbatim>\<open>10 ** 400 * 100.0\<close>
  raises \<^verbatim>\<open>OverflowError\<close>.
\<close>

lemma mul_float_one_hundredth:
  "mul_float (PyFloat (5764607523034235 / 2 ^ 59)) 100 = Inr (PyFloat 1)"
  "\<not> gt_one (PyFloat 1)"
  using round_double_example by (simp_all add: mul_float_def float_of_real_def gt_one_def)

lemma mul_float_huge_int: "mul_float (PyInt (10 ^ 400)) 100 = Inl OverflowError"
proof -
  have "(2::real) ^ 1024 \<le> 10 ^ 400" by simp
  then have "(2::real) ^ 1024 \<le> round_double (10 ^ 400)"
    by (rule round_double_large)
  then have "(2::real) ^ 1024 \<le> \<bar>round_double (10 ^ 400)\<bar>"
    by linarith
  then show ?thesis
    by (simp add: mul_float_def float_of_int_def)
qed

section \<open>Reading and writing nested dictionaries\<close>

lemma getitem_put:
  "getitem j k0 = Inr x \<Longrightarrow> getitem (put j k v) k' = (if k' = k then Inr v else getitem j k')"
  by (cases j) (simp_all add: getitem_def put_def update_conv')

lemma getitem_setitem:
  "setitem j k v = Inr j' \<Longrightarrow> getitem j' k' = (if k' = k then Inr v else getitem j k')"
  by (cases j) (auto simp: getitem_def setitem_def update_conv')

lemma set_param_value_getitem:
  assumes "set_param_value ps n v = Inr ps'" and "n' \<noteq> n"
  shows "getitem ps' n' = getitem ps n'"
  using assms by (auto simp: set_param_value_def rbind_eq_Inr getitem_put)

lemma set_param_value_param:
  assumes "set_param_value ps n v = Inr ps'"
  shows "param_value ps' n' = (if n' = n then Inr v else param_value ps n')"
  using assms
  by (auto simp: set_param_value_def param_value_def rbind_eq_Inr getitem_put getitem_setitem)


lemma set_item_params_unfold:
  assumes "set_item_params ps it q = Inr ps'"
  obtains p1 p2 where "set_param_value ps ''Param1'' (JStr it) = Inr p1"
    and "set_param_value p1 ''Param2'' (JNum q) = Inr p2"
    and "if gt_one q
         then setitem p2 ''Param13'' (JObj [(''type'', JStr ''f''), (''value'', JNum q)]) = Inr ps'
         else ps' = p2"
  using assms unfolding set_item_params_def rbind_eq_Inr
  by (auto split: if_splits)

lemma param_value_setitem:
  "setitem j k v = Inr j' \<Longrightarrow> k' \<noteq> k \<Longrightarrow> param_value j' k' = param_value j k'"
  by (simp add: param_value_def getitem_setitem)

lemma set_item_params_Param1:
  assumes "set_item_params ps it q = Inr ps'"
  shows "param_value ps' ''Param1'' = Inr (JStr it)"
proof -
  from assms obtain p1 p2 where
    1: "set_param_value ps ''Param1'' (JStr it) = Inr p1" and
    2: "set_param_value p1 ''Param2'' (JNum q) = Inr p2" and
    3: "if gt_one q
         then setitem p2 ''Param13'' (JObj [(''type'', JStr ''f''), (''value'', JNum q)]) = Inr ps'
         else ps' = p2"
    by (rule set_item_params_unfold)
  have "param_value p2 ''Param1'' = Inr (JStr it)"
    by (simp add: set_param_value_param[OF 2] set_param_value_param[OF 1])
  with 3 show ?thesis
    by (cases "gt_one q") (simp_all add: param_value_setitem)
qed

lemma set_item_params_Param2:
  assumes "set_item_params ps it q = Inr ps'"
  shows "param_value ps' ''Param2'' = Inr (JNum q)"
proof -
  from assms obtain p1 p2 where
    2: "set_param_value p1 ''Param2'' (JNum q) = Inr p2" and
    3: "if gt_one q
         then setitem p2 ''Param13'' (JObj [(''type'', JStr ''f''), (''value'', JNum q)]) = Inr ps'
         else ps' = p2"
    by (rule set_item_params_unfold)
  have "param_value p2 ''Param2'' = Inr (JNum q)"
    by (simp add: set_param_value_param[OF 2])
  with 3 show ?thesis
    by (cases "gt_one q") (simp_all add: param_value_setitem)
qed

lemma set_item_params_Param13:
  assumes "set_item_params ps it q = Inr ps'"
  shows "getitem ps' ''Param13'' =
           (if gt_one q then Inr (JObj [(''type'', JStr ''f''), (''value'', JNum q)])
            else getitem ps ''Param13'')"
proof -
  from assms obtain p1 p2 where
    1: "set_param_value ps ''Param1'' (JStr it) = Inr p1" and
    2: "set_param_value p1 ''Param2'' (JNum q) = Inr p2" and
    3: "if gt_one q
         then setitem p2 ''Param13'' (JObj [(''type'', JStr ''f''), (''value'', JNum q)]) = Inr ps'
         else ps' = p2"
    by (rule set_item_params_unfold)
  have "getitem p2 ''Param13'' = getitem ps ''Param13''"
    by (simp add: set_param_value_getitem[OF 2] set_param_value_getitem[OF 1])
  with 3 show ?thesis
    by (cases "gt_one q") (simp_all add: getitem_setitem)
qed

lemma set_item_params_other:
  assumes "set_item_params ps it q = Inr ps'"
    and "n \<noteq> ''Param1''" and "n \<noteq> ''Param2''" and "n \<noteq> ''Param13''"
  shows "param_value ps' n = param_value ps n"
proof -
  from assms(1) obtain p1 p2 where
    1: "set_param_value ps ''Param1'' (JStr it) = Inr p1" and
    2: "set_param_value p1 ''Param2'' (JNum q) = Inr p2" and
    3: "if gt_one q
         then setitem p2 ''Param13'' (JObj [(''type'', JStr ''f''), (''value'', JNum q)]) = Inr ps'
         else ps' = p2"
    by (rule set_item_params_unfold)
  have "param_value p2 n = param_value ps n"
    using assms(2,3) by (simp add: set_param_value_param[OF 2] set_param_value_param[OF 1])
  with 3 assms(4) show ?thesis
    by (cases "gt_one q") (simp_all add: param_value_setitem)
qed

text \<open>
  What \<^verbatim>\<open>set_custom_params\<close> hands to the common part: the list after the
  item-specific rewrite, with the rewritten item id and quantity.
\<close>

lemma set_custom_params_unfold:
  assumes "set_custom_params ps it q = Inr ps'"
  obtains pm q' where "rewritten_quantity it q = Inr q'"
    and "set_item_params pm (rewritten_item_id it) q' = Inr ps'"
    and "getitem pm ''Param13'' = getitem ps ''Param13''"
    and "if it = ''ITEM_ENERGY_TANKS'' then
           param_value pm ''Param4'' = Inr (JStr ''Full'') \<and>
           param_value pm ''Param5'' = Inr (JStr ''fCurrentLife'') \<and>
           param_value pm ''Param6'' = Inr (JStr ''LIFE'')
         else if it \<in> {''ITEM_WEAPON_MISSILE_MAX'', ''ITEM_WEAPON_POWER_BOMB_MAX''} then
           param_value pm ''Param4'' = Inr (JStr ''Custom'') \<and>
           param_value pm ''Param5'' = Inr (JStr (str_replace ''_MAX'' ''_CURRENT'' it)) \<and>
           param_value pm ''Param8'' = Inr (JStr ''guicallbacks.OnSecondaryGunsFire'')
         else pm = ps"
proof (cases "it = ''ITEM_ENERGY_TANKS''")
  case True
  with assms obtain q100 p4 p5 p6 where
    0: "mul_float q 100 = Inr q100" and
    4: "set_param_value ps ''Param4'' (JStr ''Full'') = Inr p4" and
    5: "set_param_value p4 ''Param5'' (JStr ''fCurrentLife'') = Inr p5" and
    6: "set_param_value p5 ''Param6'' (JStr ''LIFE'') = Inr p6" and
    7: "set_item_params p6 ''fMaxLife'' q100 = Inr ps'"
    by (auto simp: set_custom_params_def rbind_eq_Inr)
  show ?thesis
  proof (rule that[of q100 p6])
    show "rewritten_quantity it q = Inr q100"
      using 0 True by (simp add: rewritten_quantity_def)
    show "set_item_params p6 (rewritten_item_id it) q100 = Inr ps'"
      using 7 True by (simp add: rewritten_item_id_def)
    show "getitem p6 ''Param13'' = getitem ps ''Param13''"
      by (simp add: set_param_value_getitem[OF 6] set_param_value_getitem[OF 5]
          set_param_value_getitem[OF 4])
    show "if it = ''ITEM_ENERGY_TANKS'' then
           param_value p6 ''Param4'' = Inr (JStr ''Full'') \<and>
           param_value p6 ''Param5'' = Inr (JStr ''fCurrentLife'') \<and>
           param_value p6 ''Param6'' = Inr (JStr ''LIFE'')
         else if it \<in> {''ITEM_WEAPON_MISSILE_MAX'', ''ITEM_WEAPON_POWER_BOMB_MAX''} then
           param_value p6 ''Param4'' = Inr (JStr ''Custom'') \<and>
           param_value p6 ''Param5'' = Inr (JStr (str_replace ''_MAX'' ''_CURRENT'' it)) \<and>
           param_value p6 ''Param8'' = Inr (JStr ''guicallbacks.OnSecondaryGunsFire'')
         else p6 = ps"
      using True
      by (simp add: set_param_value_param[OF 6] set_param_value_param[OF 5]
          set_param_value_param[OF 4])
  qed
next
  case False
  note notE = this
  show ?thesis
  proof (cases "it \<in> {''ITEM_WEAPON_MISSILE_MAX'', ''ITEM_WEAPON_POWER_BOMB_MAX''}")
    case True
    with notE assms obtain p4 p5 p8 where
      4: "set_param_value ps ''Param4'' (JStr ''Custom'') = Inr p4" and
      5: "set_param_value p4 ''Param5'' (JStr (str_replace ''_MAX'' ''_CURRENT'' it)) = Inr p5" and
      8: "set_param_value p5 ''Param8'' (JStr ''guicallbacks.OnSecondaryGunsFire'') = Inr p8" and
      7: "set_item_params p8 it q = Inr ps'"
      by (auto simp: set_custom_params_def rbind_eq_Inr)
    show ?thesis
    proof (rule that[of q p8])
      show "rewritten_quantity it q = Inr q"
        using notE by (simp add: rewritten_quantity_def)
      show "set_item_params p8 (rewritten_item_id it) q = Inr ps'"
        using 7 notE by (simp add: rewritten_item_id_def)
      show "getitem p8 ''Param13'' = getitem ps ''Param13''"
        by (simp add: set_param_value_getitem[OF 8] set_param_value_getitem[OF 5]
            set_param_value_getitem[OF 4])
      show "if it = ''ITEM_ENERGY_TANKS'' then
           param_value p8 ''Param4'' = Inr (JStr ''Full'') \<and>
           param_value p8 ''Param5'' = Inr (JStr ''fCurrentLife'') \<and>
           param_value p8 ''Param6'' = Inr (JStr ''LIFE'')
         else if it \<in> {''ITEM_WEAPON_MISSILE_MAX'', ''ITEM_WEAPON_POWER_BOMB_MAX''} then
           param_value p8 ''Param4'' = Inr (JStr ''Custom'') \<and>
           param_value p8 ''Param5'' = Inr (JStr (str_replace ''_MAX'' ''_CURRENT'' it)) \<and>
           param_value p8 ''Param8'' = Inr (JStr ''guicallbacks.OnSecondaryGunsFire'')
         else p8 = ps"
        using True notE
        by (simp add: set_param_value_param[OF 8] set_param_value_param[OF 5]
            set_param_value_param[OF 4])
    qed
  next
    case False
    with notE assms have "set_item_params ps it q = Inr ps'"
      unfolding set_custom_params_def by simp
    with False notE show ?thesis
      by (intro that[of q ps]) (simp_all add: rewritten_item_id_def rewritten_quantity_def)
  qed
qed

lemma getitem0_put0:
  assumes "getitem0 f = Inr x" and "getitem x k = Inr y"
  shows "getitem0 (put0 f v) = Inr v"
  using assms
  by (cases f) (auto simp: getitem0_def put0_def getitem_def split: list.splits)

lemma rbindE:
  assumes "rbind r f = Inr y"
  obtains x where "r = Inr x" and "f x = Inr y"
  using assms by (auto simp: rbind_eq_Inr)

lemma make_new_template_params:
  assumes "make_new_template tmpl i pk = Inr t'"
  obtains ps ps' where "pickable_params tmpl = Inr ps"
    and "set_custom_params ps (item_id pk) (quantity pk) = Inr ps'"
    and "pickable_params t' = Inr ps'"
proof -
  from assms obtain t1 prp comps pick flds flds4 funs fun0 ps ps' where
    t1: "setitem tmpl ''name'' (JStr (''randomizer_powerup_'' @ str_nat i)) = Inr t1" and
    prp: "getitem t1 ''property'' = Inr prp" and
    comps: "getitem prp ''components'' = Inr comps" and
    pick: "getitem comps ''PICKABLE'' = Inr pick" and
    flds: "getitem pick ''fields'' = Inr flds" and
    funs: "getitem (put pick ''fields'' (put flds ''fields'' flds4)) ''functions'' = Inr funs" and
    fun0: "getitem0 funs = Inr fun0" and
    ps: "getitem fun0 ''params'' = Inr ps" and
    ps': "set_custom_params ps (item_id pk) (quantity pk) = Inr ps'" and
    t': "Inr (put t1 ''property'' (put prp ''components'' (put comps ''PICKABLE''
              (put (put pick ''fields'' (put flds ''fields'' flds4)) ''functions''
                 (put0 funs (put fun0 ''params'' ps')))))) = (Inr t' :: json result)"
    unfolding make_new_template_def Let_def by (elim rbindE) blast
  have funs': "getitem pick ''functions'' = Inr funs"
    using funs by (simp add: getitem_put[OF flds])
  have prp': "getitem tmpl ''property'' = Inr prp"
    using prp by (simp add: getitem_setitem[OF t1])
  have 1: "pickable_params tmpl = Inr ps"
    by (simp add: pickable_params_def prp' comps pick funs' fun0 ps)
  have 2: "pickable_params t' = Inr ps'"
    using t' unfolding pickable_params_def
    by (auto simp add: getitem_put[OF prp] getitem_put[OF comps] getitem_put[OF pick]
        getitem_put[OF funs] getitem_put[OF ps] getitem0_put0[OF fun0 ps])
  from 1 ps' 2 show ?thesis by (rule that)
qed

section \<open>The parameters of a synthesized pickup\<close>

lemmas json_eval = make_new_template_def set_custom_params_def set_item_params_def
  set_param_value_def getitem_def setitem_def put_def put0_def getitem0_def
  pickable_params_def param_value_def num_val_def gt_one_def Let_def
  rewritten_item_id_def rewritten_quantity_def

lemmas example_defs = example_template_def example_params_def example_pickup_def

text \<open>
  Claim C1 (as amended). Whenever the template of a pickup is built, the product of
  line 136 has not raised, parameter 1 is the item id and parameter 2 the quantity, both
  after the item-specific rewrite (for an energy tank the quantity is the double product
  with 100.0), and \<^verbatim>\<open>Param13\<close> is decided on the rewritten quantity: when that is greater
  than 1, \<^verbatim>\<open>Param13\<close> is the dictionary of type \<^verbatim>\<open>f\<close> with the rewritten quantity as value,
  and otherwise \<^verbatim>\<open>Param13\<close> reads as it did in the template (none is added).
\<close>

theorem make_new_template_item_params:
  assumes "make_new_template tmpl i pk = Inr t'"
  shows "\<exists>ps ps' q'. rewritten_quantity (item_id pk) (quantity pk) = Inr q' \<and>
           pickable_params tmpl = Inr ps \<and> pickable_params t' = Inr ps' \<and>
           param_value ps' ''Param1'' = Inr (JStr (rewritten_item_id (item_id pk))) \<and>
           param_value ps' ''Param2'' = Inr (JNum q') \<and>
           getitem ps' ''Param13'' =
             (if gt_one q'
              then Inr (JObj [(''type'', JStr ''f''), (''value'', JNum q')])
              else getitem ps ''Param13'')"
proof -
  from assms obtain ps ps' where
    ps: "pickable_params tmpl = Inr ps" and
    custom: "set_custom_params ps (item_id pk) (quantity pk) = Inr ps'" and
    ps': "pickable_params t' = Inr ps'"
    by (rule make_new_template_params)
  from custom obtain pm q' where
    q': "rewritten_quantity (item_id pk) (quantity pk) = Inr q'" and
    common: "set_item_params pm (rewritten_item_id (item_id pk)) q' = Inr ps'" and
    p13: "getitem pm ''Param13'' = getitem ps ''Param13''"
    by (rule set_custom_params_unfold)
  show ?thesis
    using q' ps ps' set_item_params_Param1[OF common] set_item_params_Param2[OF common]
      set_item_params_Param13[OF common] p13
    by simp
qed

text \<open>
  Claim C1, witness: two energy tanks on the example template. The rewritten quantity is
  the float 200, parameter 2 holds it, and \<^verbatim>\<open>Param13\<close>, which the template does not have,
  is added with it.
\<close>

theorem make_new_template_item_params_witness:
  "\<exists>t'. make_new_template example_template 0
           (example_pickup ''ITEM_ENERGY_TANKS'' (PyInt 2)) = Inr t' \<and>
        (\<exists>ps ps'. pickable_params example_template = Inr ps \<and> pickable_params t' = Inr ps' \<and>
           param_value ps' ''Param1'' = Inr (JStr ''fMaxLife'') \<and>
           param_value ps' ''Param2'' = Inr (JNum (PyFloat 200)) \<and>
           getitem ps ''Param13'' = Inl KeyError \<and>
           getitem ps' ''Param13'' =
             Inr (JObj [(''type'', JStr ''f''), (''value'', JNum (PyFloat 200))]))"
proof -
  obtain t' where h: "make_new_template example_template 0
           (example_pickup ''ITEM_ENERGY_TANKS'' (PyInt 2)) = Inr t'"
    by (simp add: json_eval example_defs)
  have k: "rbind (pickable_params example_template) (\<lambda>ps. getitem ps ''Param13'') = Inl KeyError"
    by (simp add: json_eval example_defs)
  from make_new_template_item_params[OF h] obtain ps ps' where
    "pickable_params example_template = Inr ps" "pickable_params t' = Inr ps'"
    "param_value ps' ''Param1'' = Inr (JStr ''fMaxLife'')"
    "param_value ps' ''Param2'' = Inr (JNum (PyFloat 200))"
    "getitem ps' ''Param13'' = Inr (JObj [(''type'', JStr ''f''), (''value'', JNum (PyFloat 200))])"
    by (auto simp: example_pickup_def rewritten_item_id_def rewritten_quantity_def gt_one_def)
  with h k show ?thesis by auto
qed

text \<open>
  The other branch, on the same template: a wide beam of quantity 1 gets parameters 1
  and 2 and no \<^verbatim>\<open>Param13\<close>.
\<close>

lemma make_new_template_wide_beam:
  "rbind (make_new_template example_template 0 (example_pickup ''ITEM_WEAPON_WIDE_BEAM'' (PyInt 1)))
     (\<lambda>t. rbind (pickable_params t) (\<lambda>ps.
        Inr (param_value ps ''Param1'', param_value ps ''Param2'', getitem ps ''Param13''))) =
   Inr (Inr (JStr ''ITEM_WEAPON_WIDE_BEAM''), Inr (JNum (PyInt 1)), Inl KeyError)"
  by (simp add: json_eval example_defs)

text \<open>
  Claim C1, as stated, fails: the claim compares the quantity of the record. One energy
  tank has quantity 1, the template has no \<^verbatim>\<open>Param13\<close>, and the built template has one,
  with value 100: the comparison of line 148 reads the quantity after line 136 multiplied
  it.
\<close>

theorem param13_added_for_one_energy_tank:
  "num_val (quantity (example_pickup ''ITEM_ENERGY_TANKS'' (PyInt 1))) \<le> 1 \<and>
   rbind (pickable_params example_template) (\<lambda>ps. getitem ps ''Param13'') = Inl KeyError \<and>
   rbind (make_new_template example_template 0 (example_pickup ''ITEM_ENERGY_TANKS'' (PyInt 1)))
     (\<lambda>t. rbind (pickable_params t) (\<lambda>ps. getitem ps ''Param13'')) =
   Inr (JObj [(''type'', JStr ''f''), (''value'', JNum (PyFloat 100))])"
  by (simp add: json_eval example_defs)

text \<open>
  Where the product of line 136 raises, nothing is built: an energy tank whose quantity is
  the integer \<open>10 ^ 400\<close>.
\<close>

lemma make_new_template_overflow:
  "make_new_template example_template 0 (example_pickup ''ITEM_ENERGY_TANKS'' (PyInt (10 ^ 400))) =
     Inl OverflowError"
  using mul_float_huge_int
  by (simp add: make_new_template_def set_custom_params_def getitem_def setitem_def put_def
      getitem0_def Let_def example_defs)

text \<open>
  Claim C2. For the item id \<^verbatim>\<open>ITEM_ENERGY_TANKS\<close> and quantity 2, the built template
  has parameter 1 equal to \<^verbatim>\<open>fMaxLife\<close>, parameter 2 equal to the float 200, and the
  parameters 4, 5 and 6 equal to \<^verbatim>\<open>Full\<close>, \<^verbatim>\<open>fCurrentLife\<close> and \<^verbatim>\<open>LIFE\<close>.
\<close>

theorem energy_tanks_params:
  assumes "item_id pk = ''ITEM_ENERGY_TANKS''" and "num_val (quantity pk) = 2"
    and "make_new_template tmpl i pk = Inr t'"
  shows "\<exists>ps'. pickable_params t' = Inr ps' \<and>
           param_value ps' ''Param1'' = Inr (JStr ''fMaxLife'') \<and>
           param_value ps' ''Param2'' = Inr (JNum (PyFloat 200)) \<and>
           param_value ps' ''Param4'' = Inr (JStr ''Full'') \<and>
           param_value ps' ''Param5'' = Inr (JStr ''fCurrentLife'') \<and>
           param_value ps' ''Param6'' = Inr (JStr ''LIFE'')"
proof -
  from assms(3) obtain ps ps' where
    custom: "set_custom_params ps (item_id pk) (quantity pk) = Inr ps'" and
    ps': "pickable_params t' = Inr ps'"
    by (rule make_new_template_params)
  from custom obtain pm q' where
    q': "rewritten_quantity (item_id pk) (quantity pk) = Inr q'" and
    common: "set_item_params pm (rewritten_item_id (item_id pk)) q' = Inr ps'" and
    mode: "param_value pm ''Param4'' = Inr (JStr ''Full'') \<and>
           param_value pm ''Param5'' = Inr (JStr ''fCurrentLife'') \<and>
           param_value pm ''Param6'' = Inr (JStr ''LIFE'')"
    by (rule set_custom_params_unfold) (simp add: assms(1))
  have id: "rewritten_item_id (item_id pk) = ''fMaxLife''"
    using assms(1) by (simp add: rewritten_item_id_def)
  have two: "quantity pk = PyInt 2 \<or> quantity pk = PyFloat (of_int 2)"
    using assms(2) by (cases "quantity pk") (simp_all add: num_val_def)
  have "mul_float (quantity pk) 100 = Inr (PyFloat (of_int (2 * 100)))"
    using assms(2) two by (intro mul_float_whole) simp_all
  then have q: "q' = PyFloat 200"
    using q' assms(1) by (simp add: rewritten_quantity_def)
  have "param_value ps' ''Param1'' = Inr (JStr ''fMaxLife'')"
    using set_item_params_Param1[OF common] by (simp add: id)
  moreover have "param_value ps' ''Param2'' = Inr (JNum (PyFloat 200))"
    using set_item_params_Param2[OF common] by (simp add: q)
  moreover have "param_value ps' ''Param4'' = param_value pm ''Param4''"
    by (rule set_item_params_other[OF common]) simp_all
  moreover have "param_value ps' ''Param5'' = param_value pm ''Param5''"
    by (rule set_item_params_other[OF common]) simp_all
  moreover have "param_value ps' ''Param6'' = param_value pm ''Param6''"
    by (rule set_item_params_other[OF common]) simp_all
  ultimately show ?thesis using ps' mode by simp
qed

text \<open>
  Claim C2, witness. Two energy tanks on the example template.
\<close>

theorem energy_tanks_params_witness:
  "\<exists>t'. make_new_template example_template 0 (example_pickup ''ITEM_ENERGY_TANKS'' (PyInt 2)) = Inr t' \<and>
     (\<exists>ps'. pickable_params t' = Inr ps' \<and>
           param_value ps' ''Param1'' = Inr (JStr ''fMaxLife'') \<and>
           param_value ps' ''Param2'' = Inr (JNum (PyFloat 200)) \<and>
           param_value ps' ''Param4'' = Inr (JStr ''Full'') \<and>
           param_value ps' ''Param5'' = Inr (JStr ''fCurrentLife'') \<and>
           param_value ps' ''Param6'' = Inr (JStr ''LIFE''))"
proof -
  obtain t' where h: "make_new_template example_template 0
           (example_pickup ''ITEM_ENERGY_TANKS'' (PyInt 2)) = Inr t'"
    by (simp add: json_eval example_defs)
  have 1: "item_id (example_pickup ''ITEM_ENERGY_TANKS'' (PyInt 2)) = ''ITEM_ENERGY_TANKS''"
    and 2: "num_val (quantity (example_pickup ''ITEM_ENERGY_TANKS'' (PyInt 2))) = 2"
    by (simp_all add: example_pickup_def num_val_def)
  from energy_tanks_params[OF 1 2 h] h show ?thesis by blast
qed

text \<open>
  Claim C3. For the item ids \<^verbatim>\<open>ITEM_WEAPON_MISSILE_MAX\<close> and
  \<^verbatim>\<open>ITEM_WEAPON_POWER_BOMB_MAX\<close>, the built template has parameter 1 equal to the item id
  as configured, parameter 4 equal to \<^verbatim>\<open>Custom\<close>, parameter 5 equal to the name of the
  \<^verbatim>\<open>_CURRENT\<close> counter of the item and parameter 8 equal to the secondary-fire callback.
\<close>

theorem ammo_max_params:
  assumes "item_id pk \<in> {''ITEM_WEAPON_MISSILE_MAX'', ''ITEM_WEAPON_POWER_BOMB_MAX''}"
    and "make_new_template tmpl i pk = Inr t'"
  shows "\<exists>ps'. pickable_params t' = Inr ps' \<and>
           param_value ps' ''Param1'' = Inr (JStr (item_id pk)) \<and>
           param_value ps' ''Param4'' = Inr (JStr ''Custom'') \<and>
           param_value ps' ''Param5'' =
             Inr (JStr (if item_id pk = ''ITEM_WEAPON_MISSILE_MAX''
                        then ''ITEM_WEAPON_MISSILE_CURRENT''
                        else ''ITEM_WEAPON_POWER_BOMB_CURRENT'')) \<and>
           param_value ps' ''Param8'' = Inr (JStr ''guicallbacks.OnSecondaryGunsFire'')"
proof -
  from assms(2) obtain ps ps' where
    custom: "set_custom_params ps (item_id pk) (quantity pk) = Inr ps'" and
    ps': "pickable_params t' = Inr ps'"
    by (rule make_new_template_params)
  have notE: "item_id pk \<noteq> ''ITEM_ENERGY_TANKS''"
    using assms(1) by auto
  from custom obtain pm q' where
    common: "set_item_params pm (rewritten_item_id (item_id pk)) q' = Inr ps'" and
    mode: "param_value pm ''Param4'' = Inr (JStr ''Custom'') \<and>
           param_value pm ''Param5'' = Inr (JStr (str_replace ''_MAX'' ''_CURRENT'' (item_id pk))) \<and>
           param_value pm ''Param8'' = Inr (JStr ''guicallbacks.OnSecondaryGunsFire'')"
    by (rule set_custom_params_unfold) (use assms(1) notE in simp)
  have id: "rewritten_item_id (item_id pk) = item_id pk"
    using notE by (simp add: rewritten_item_id_def)
  have cur: "str_replace ''_MAX'' ''_CURRENT'' (item_id pk) =
          (if item_id pk = ''ITEM_WEAPON_MISSILE_MAX''
           then ''ITEM_WEAPON_MISSILE_CURRENT'' else ''ITEM_WEAPON_POWER_BOMB_CURRENT'')"
    using assms(1) by auto
  have "param_value ps' ''Param1'' = Inr (JStr (item_id pk))"
    using set_item_params_Param1[OF common] by (simp add: id)
  moreover have "param_value ps' ''Param4'' = param_value pm ''Param4''"
    by (rule set_item_params_other[OF common]) simp_all
  moreover have "param_value ps' ''Param5'' = param_value pm ''Param5''"
    by (rule set_item_params_other[OF common]) simp_all
  moreover have "param_value ps' ''Param8'' = param_value pm ''Param8''"
    by (rule set_item_params_other[OF common]) simp_all
  ultimately show ?thesis using ps' mode cur by simp
qed

text \<open>
  Claim C3, witness. A missile tank of quantity 2 on the example template.
\<close>

theorem ammo_max_params_witness:
  "\<exists>t'. make_new_template example_template 3
           (example_pickup ''ITEM_WEAPON_MISSILE_MAX'' (PyInt 2)) = Inr t' \<and>
     (\<exists>ps'. pickable_params t' = Inr ps' \<and>
           param_value ps' ''Param1'' = Inr (JStr ''ITEM_WEAPON_MISSILE_MAX'') \<and>
           param_value ps' ''Param4'' = Inr (JStr ''Custom'') \<and>
           param_value ps' ''Param5'' = Inr (JStr ''ITEM_WEAPON_MISSILE_CURRENT'') \<and>
           param_value ps' ''Param8'' = Inr (JStr ''guicallbacks.OnSecondaryGunsFire''))"
proof -
  obtain t' where h: "make_new_template example_template 3
           (example_pickup ''ITEM_WEAPON_MISSILE_MAX'' (PyInt 2)) = Inr t'"
    by (simp add: json_eval example_defs)
  have 1: "item_id (example_pickup ''ITEM_WEAPON_MISSILE_MAX'' (PyInt 2))
             \<in> {''ITEM_WEAPON_MISSILE_MAX'', ''ITEM_WEAPON_POWER_BOMB_MAX''}"
    by (simp add: example_pickup_def)
  from ammo_max_params[OF 1 h] h show ?thesis
    by (auto simp: example_pickup_def)
qed

section \<open>The script injector\<close>
















section \<open>The resource cache\<close>

lemma sbind_Inl [simp]: "sbind (Inl e, s) f = (Inl e, s)"
  by (simp add: sbind_def)

lemma sbind_Inr [simp]: "sbind (Inr x, s) f = f x s"
  by (simp add: sbind_def)

lemma post_Inl [simp]: "post (Inl e, s) E Q = E s"
  by (simp add: post_def)

lemma post_Inr [simp]: "post (Inr x, s) E Q = Q x s"
  by (simp add: post_def)

lemma post_sbind: "post (sbind m f) E Q = post m E (\<lambda>x s. post (f x s) E Q)"
  by (cases m) (simp add: post_def sbind_def split: sum.splits)

lemma post_mono:
  assumes "post m E Q" and "\<And>s. E s \<Longrightarrow> E' s" and "\<And>x s. Q x s \<Longrightarrow> Q' x s"
  shows "post m E' Q'"
  using assms by (auto simp: post_def split: sum.splits)

lemma post_sbindI:
  assumes "post m E P" and "\<And>x s. P x s \<Longrightarrow> post (f x s) E Q"
  shows "post (sbind m f) E Q"
  unfolding post_sbind using assms(1) by (rule post_mono) (auto intro: assms(2))

lemma does_asset_exists_iff: "does_asset_exists ed name \<longleftrightarrow> name \<in> fst ` set (assets ed)"
  by (simp add: does_asset_exists_def map_of_eq_None_iff)

lemma fst_set_update: "fst ` set (AList.update k v al) = insert k (fst ` set al)"
  using dom_update[of k v al] by (simp add: dom_map_of_conv_image_fst)

subsection \<open>Reads through the cache\<close>

lemma get_file_cached:
  "map_of (memory_files ed) path = Some r \<Longrightarrow> get_file ed path hint = (Inr r, ed)"
  by (simp add: get_file_def)

lemma get_file_again:
  assumes "get_file ed path hint = (Inr r, ed')"
  shows "get_file ed' path hint' = (Inr r, ed')"
proof (cases "map_of (memory_files ed) path")
  case (Some r')
  with assms show ?thesis by (simp add: get_file_def)
next
  case None
  with assms have "map_of (memory_files ed') path = Some r"
    by (auto simp: get_file_def get_parsed_asset_def sbind_def update_conv' split: sum.splits)
  then show ?thesis by (rule get_file_cached)
qed

lemma get_file_inv:
  assumes "cache_inv ed"
  shows "post (get_file ed path hint) (\<lambda>s. distinct (parse_log s))
           (\<lambda>r s. cache_inv s \<and> map_of (memory_files s) path = Some r)"
proof (cases "map_of (memory_files ed) path")
  case (Some r)
  with assms show ?thesis by (simp add: get_file_def)
next
  case None
  then have notin: "path \<notin> fst ` set (memory_files ed)"
    by (simp add: map_of_eq_None_iff)
  with assms have nolog: "path \<notin> set (parse_log ed)"
    by (auto simp: cache_inv_def)
  show ?thesis
  proof (cases "map_of (assets ed) path")
    case n: None
    with None assms nolog show ?thesis
      by (simp add: get_file_def get_parsed_asset_def get_raw_asset_def cache_inv_def)
  next
    case (Some r)
    then have "path \<in> fst ` set (assets ed)"
      by (metis map_of_eq_None_iff option.distinct(1))
    with None Some assms nolog show ?thesis
      by (auto simp: get_file_def get_parsed_asset_def get_raw_asset_def cache_inv_def
          fst_set_update distinct_update update_conv')
  qed
qed

lemma same_cache_refl [simp]: "same_cache ed ed"
  by (simp add: same_cache_def)

lemma same_cache_trans: "same_cache a b \<Longrightarrow> same_cache b c \<Longrightarrow> same_cache a c"
  by (auto simp: same_cache_def)

lemma same_cache_inv: "cache_inv ed \<Longrightarrow> same_cache ed ed' \<Longrightarrow> cache_inv ed'"
  by (auto simp: same_cache_def cache_inv_def)

lemma cache_inv_distinct: "cache_inv ed \<Longrightarrow> distinct (parse_log ed)"
  by (simp add: cache_inv_def)

lemma get_scenario_inv:
  assumes "cache_inv ed"
  shows "post (get_scenario ed name) (\<lambda>s. distinct (parse_log s))
           (\<lambda>level s. cache_inv s \<and>
              map_of (memory_files s) (path_for_level name @ ''.brfld'') = Some (BrfldRes level))"
  unfolding get_scenario_def
  by (rule post_sbindI[OF get_file_inv[OF assms]])
     (auto simp: cache_inv_distinct split: resource.splits)

lemma store_level_inv:
  assumes "cache_inv s"
    and "map_of (memory_files s) (path_for_level name @ ''.brfld'') = Some r"
  shows "cache_inv (store_level s name level)"
proof -
  from assms(2) have "path_for_level name @ ''.brfld'' \<in> fst ` set (memory_files s)"
    by (metis map_of_eq_None_iff option.distinct(1))
  with assms(1) show ?thesis
    by (auto simp: cache_inv_def store_level_def fst_set_update distinct_update)
qed

lemma ensure_present_same:
  "post (ensure_present ed pkg name) (same_cache ed) (\<lambda>_. same_cache ed)"
  by (auto simp: ensure_present_def same_cache_def split: option.splits)

lemma post_same_trans:
  assumes "same_cache ed ed1" and "post m (same_cache ed1) (\<lambda>_. same_cache ed1)"
  shows "post m (same_cache ed) (\<lambda>_. same_cache ed)"
  using assms(2) by (rule post_mono) (auto intro: same_cache_trans[OF assms(1)])

lemma ensure_present_in_same:
  "post (ensure_present_in ed pkgs name) (same_cache ed) (\<lambda>_. same_cache ed)"
proof (induction pkgs arbitrary: ed)
  case Nil
  show ?case by simp
next
  case (Cons pkg pkgs)
  show ?case
    unfolding ensure_present_in.simps
    by (rule post_sbindI[OF ensure_present_same]) (rule post_same_trans[OF _ Cons.IH])
qed

lemma ensure_all_present_same:
  "post (ensure_all_present ed pkg deps) (same_cache ed) (\<lambda>_. same_cache ed)"
proof (induction deps arbitrary: ed)
  case Nil
  show ?case by simp
next
  case (Cons dep deps)
  show ?case
    unfolding ensure_all_present.simps
    by (rule post_sbindI[OF ensure_present_same]) (rule post_same_trans[OF _ Cons.IH])
qed

lemma ensure_dependencies_same:
  "post (ensure_dependencies ed pkgs) (same_cache ed) (\<lambda>_. same_cache ed)"
proof (induction pkgs arbitrary: ed)
  case Nil
  show ?case by simp
next
  case (Cons pkg pkgs)
  show ?case
    unfolding ensure_dependencies.simps
    by (rule post_sbindI[OF ensure_all_present_same]) (rule post_same_trans[OF _ Cons.IH])
qed

lemma add_new_asset_same:
  "post (add_new_asset ed name new_data in_pkgs) (same_cache ed) (\<lambda>_. same_cache ed)"
proof (cases "does_asset_exists ed name")
  case True
  then show ?thesis by (simp add: add_new_asset_def)
next
  case False
  have "same_cache ed (ed\<lparr>assets := assets ed @ [(name, new_data)],
                  added_log := added_log ed @ [(name, new_data, in_pkgs)]\<rparr>)"
    by (auto simp: same_cache_def)
  then show ?thesis
    using False unfolding add_new_asset_def
    by (simp add: post_same_trans[OF _ ensure_present_in_same])
qed

lemma replace_asset_same:
  "post (replace_asset ed name new_data) (same_cache ed) (\<lambda>_. same_cache ed)"
  by (auto simp: replace_asset_def same_cache_def fst_set_update does_asset_exists_iff)

lemma create_init_copy_same:
  "post (create_init_copy ed) (same_cache ed) (\<lambda>_. same_cache ed)"
  by (auto simp: create_init_copy_def add_new_asset_same split: sum.splits)

text \<open>From the frame of a repository operation to the invariant of the cache.\<close>

lemma post_same_inv:
  assumes "cache_inv ed" and "post m (same_cache ed) (\<lambda>_. same_cache ed)"
  shows "post m (\<lambda>s. distinct (parse_log s)) (\<lambda>_. cache_inv)"
  using assms(2)
  by (rule post_mono) (auto intro: same_cache_inv[OF assms(1)] cache_inv_distinct)

lemma post_sbindI2:
  assumes "post m E P" and "\<And>s. E s \<Longrightarrow> E' s" and "\<And>x s. P x s \<Longrightarrow> post (f x s) E' Q"
  shows "post (sbind m f) E' Q"
  unfolding post_sbind using assms(1) by (rule post_mono) (auto intro: assms(2,3))

lemma patch_elevator_inv:
  assumes "cache_inv ed"
  shows "post (patch_elevator ed el) (\<lambda>s. distinct (parse_log s)) (\<lambda>_. cache_inv)"
  unfolding patch_elevator_def
  by (rule post_sbindI[OF get_scenario_inv[OF assms]])
     (auto simp: Let_def cache_inv_distinct store_level_inv split: sum.splits option.splits)

lemma patch_elevators_inv:
  assumes "cache_inv ed"
  shows "post (patch_elevators ed els) (\<lambda>s. distinct (parse_log s)) (\<lambda>_. cache_inv)"
  using assms
proof (induction els arbitrary: ed)
  case Nil
  then show ?case by simp
next
  case (Cons el els)
  show ?case
    unfolding patch_elevators.simps
    by (rule post_sbindI[OF patch_elevator_inv[OF Cons.prems]]) (rule Cons.IH)
qed

lemma patch_pickup_inv:
  assumes "cache_inv ed"
  shows "post (patch_pickup ed tmpl i pk acc) (\<lambda>s. distinct (parse_log s)) (\<lambda>_. cache_inv)"
  unfolding patch_pickup_def Let_def
proof (rule post_sbindI[OF get_scenario_inv[OF assms]], goal_cases)
  case (1 level ed1)
  then have inv1: "cache_inv ed1"
    and cached: "map_of (memory_files ed1) (path_for_level (scenario (pickup_actor pk)) @ ''.brfld'')
                   = Some (BrfldRes level)"
    by simp_all
  show ?case
  proof (cases "actor_of level (pickup_actor pk)")
    case (Inl e)
    with inv1 show ?thesis by (simp add: cache_inv_distinct)
  next
    case a: (Inr a)
    show ?thesis
    proof (cases "make_new_template tmpl i pk")
      case (Inl e)
      with a inv1 show ?thesis by (simp add: cache_inv_distinct)
    next
      case t: (Inr new_template)
      have "post (sbind (add_new_asset ed1 (new_path i) (BmsadRes new_template)
                    (remdups (find_pkgs ed (level_path pk))))
               (\<lambda>_ ed2. sbind (ensure_dependencies
                    (store_level ed2 (scenario (pickup_actor pk))
                       (store_actor level (pickup_actor pk)
                          (a\<lparr>oActorDefLink := ''actordef:'' @ new_path i,
                             pComponents := AList.delete ''LIFE'' (pComponents a)\<rparr>)))
                    (remdups (find_pkgs ed (level_path pk))))
                  (\<lambda>_ ed4. (Inr (set_update acc (remdups (find_pkgs ed (level_path pk)))), ed4))))
             (\<lambda>s. distinct (parse_log s)) (\<lambda>_. cache_inv)"
      proof (rule post_sbindI2[OF add_new_asset_same], goal_cases)
        case (1 s)
        with inv1 show ?case by (auto intro: cache_inv_distinct same_cache_inv)
      next
        case (2 x ed2)
        then have inv2: "cache_inv ed2" and mf: "memory_files ed2 = memory_files ed1"
          using inv1 by (auto intro: same_cache_inv simp: same_cache_def)
        have inv3: "cache_inv (store_level ed2 (scenario (pickup_actor pk))
                       (store_actor level (pickup_actor pk)
                          (a\<lparr>oActorDefLink := ''actordef:'' @ new_path i,
                             pComponents := AList.delete ''LIFE'' (pComponents a)\<rparr>)))"
          using inv2 cached by (intro store_level_inv) (simp_all add: mf)
        show ?case
          by (rule post_sbindI[OF post_same_inv[OF inv3 ensure_dependencies_same]]) simp
      qed
      with a t show ?thesis by simp
    qed
  qed
qed

lemma patch_pickups_loop_inv:
  assumes "cache_inv ed"
  shows "post (patch_pickups_loop ed tmpl i pks acc) (\<lambda>s. distinct (parse_log s)) (\<lambda>_. cache_inv)"
  using assms
proof (induction pks arbitrary: ed i acc)
  case Nil
  then show ?case by simp
next
  case (Cons pk pks)
  show ?case
    unfolding patch_pickups_loop.simps
    by (rule post_sbindI[OF patch_pickup_inv[OF Cons.prems]]) (rule Cons.IH)
qed

lemma patch_pickups_inv:
  assumes "cache_inv ed"
  shows "post (patch_pickups ed template_file lua_file pks)
           (\<lambda>s. distinct (parse_log s)) (\<lambda>_. cache_inv)"
proof (cases template_file)
  case None
  with assms show ?thesis
    by (simp add: patch_pickups_def read_file_def cache_inv_distinct)
next
  case (Some tmpl)
  have "post (sbind (patch_pickups_loop ed tmpl 0 pks [])
          (\<lambda>pkgs_for_lua ed1. case read_file lua_file of Inl e \<Rightarrow> (Inl e, ed1)
              | Inr lua \<Rightarrow> add_new_asset ed1 powerup_lc (Bytes lua) pkgs_for_lua))
          (\<lambda>s. distinct (parse_log s)) (\<lambda>_. cache_inv)"
  proof (rule post_sbindI[OF patch_pickups_loop_inv[OF assms]], goal_cases)
    case (1 pkgs ed1)
    then show ?case
      by (cases lua_file)
         (simp_all add: read_file_def cache_inv_distinct post_same_inv[OF _ add_new_asset_same])
  qed
  with Some show ?thesis by (simp add: patch_pickups_def read_file_def)
qed

subsection \<open>The commit\<close>

lemma replace_assets_ok:
  assumes "fst ` set items \<subseteq> fst ` set (assets ed)"
  shows "replace_assets ed items =
           (Inr (), ed\<lparr>assets := fold (\<lambda>item. AList.update (fst item) (snd item)) items (assets ed)\<rparr>)"
  using assms
proof (induction items arbitrary: ed)
  case Nil
  show ?case by simp
next
  case (Cons item items)
  then have here: "does_asset_exists ed (fst item)"
    by (simp add: does_asset_exists_iff)
  have rest: "fst ` set items \<subseteq>
      fst ` set (assets (ed\<lparr>assets := AList.update (fst item) (snd item) (assets ed)\<rparr>))"
    using Cons.prems by (auto simp: fst_set_update)
  show ?case
    using here by (simp add: replace_asset_def Cons.IH[OF rest])
qed

lemma map_of_fold_update:
  assumes "distinct (map fst items)"
  shows "map_of (fold (\<lambda>item. AList.update (fst item) (snd item)) items al) p =
           (case map_of items p of Some r \<Rightarrow> Some r | None \<Rightarrow> map_of al p)"
  using assms
proof (induction items arbitrary: al)
  case Nil
  show ?case by simp
next
  case (Cons item items)
  then have "map_of items (fst item) = None"
    by (simp add: map_of_eq_None_iff)
  with Cons show ?case
    by (cases item) (auto simp: update_conv' split: option.splits)
qed

lemma flush_modified_assets_ok:
  assumes "cache_inv ed"
  shows "flush_modified_assets ed =
           (Inr (), ed\<lparr>assets := fold (\<lambda>item. AList.update (fst item) (snd item))
                                   (memory_files ed) (assets ed),
                        memory_files := []\<rparr>)"
proof -
  from assms have "fst ` set (memory_files ed) \<subseteq> fst ` set (assets ed)"
    by (simp add: cache_inv_def)
  then show ?thesis
    by (simp add: flush_modified_assets_def replace_assets_ok)
qed

lemma replace_assets_same:
  "post (replace_assets ed items) (same_cache ed) (\<lambda>_. same_cache ed)"
proof (induction items arbitrary: ed)
  case Nil
  show ?case by simp
next
  case (Cons item items)
  show ?case
    unfolding replace_assets.simps
    by (rule post_sbindI[OF replace_asset_same]) (rule post_same_trans[OF _ Cons.IH])
qed

lemma flush_modified_assets_log:
  assumes "distinct (parse_log ed)"
  shows "post (flush_modified_assets ed) (\<lambda>s. distinct (parse_log s))
            (\<lambda>_ s. distinct (parse_log s))"
  unfolding flush_modified_assets_def
  by (rule post_sbindI2[OF replace_assets_same]) (use assms in \<open>auto simp: same_cache_def\<close>)

lemma patch_edits_log:
  assumes "cache_inv ed"
  shows "post (patch_edits files ed cfg) (\<lambda>s. distinct (parse_log s))
           (\<lambda>_ s. distinct (parse_log s))"
  unfolding patch_edits_def
proof (rule post_sbindI[OF post_same_inv[OF assms create_init_copy_same]], goal_cases)
  case (1 u ed1)
  show ?case
  proof (cases "rbind (create_custom_init (custom_init_lua files) (starting_items cfg)
                     (starting_location cfg)) encode_ascii")
    case (Inl e)
    with 1 show ?thesis by (simp add: cache_inv_distinct)
  next
    case (Inr code)
    have "post (sbind (replace_asset ed1 ''system/scripts/init.lc'' (Bytes code)) (\<lambda>_ ed2.
           sbind (case elevators cfg of
                    None \<Rightarrow> (Inr (), ed2)
                  | Some elevators_config \<Rightarrow> patch_elevators ed2 elevators_config) (\<lambda>_ ed3.
           sbind (patch_pickups ed3 (template_powerup_bmsad_json files)
                    (randomizer_powerup_lua files) (pickups cfg)) (\<lambda>_ ed4.
           flush_modified_assets ed4))))
          (\<lambda>s. distinct (parse_log s)) (\<lambda>_ s. distinct (parse_log s))"
    proof (rule post_sbindI[OF post_same_inv[OF 1 replace_asset_same]], goal_cases)
      case (1 u2 ed2)
      have el: "post (case elevators cfg of
                    None \<Rightarrow> (Inr (), ed2)
                  | Some elevators_config \<Rightarrow> patch_elevators ed2 elevators_config)
                 (\<lambda>s. distinct (parse_log s)) (\<lambda>_. cache_inv)"
        using 1 by (cases "elevators cfg") (simp_all add: patch_elevators_inv)
      show ?case
      proof (rule post_sbindI[OF el], goal_cases)
        case (1 u3 ed3)
        show ?case
          by (rule post_sbindI[OF patch_pickups_inv[OF 1]])
             (simp add: flush_modified_assets_log cache_inv_distinct)
      qed
    qed
    with Inr show ?thesis by simp
  qed
qed

lemma cache_inv_PatcherEditor: "cache_inv (PatcherEditor tree)"
  by (simp add: cache_inv_def PatcherEditor_def)

lemma patch_parse_log: "distinct (parse_log (fst (snd (patch files tree out cfg))))"
proof (cases "validate files cfg")
  case (Inl e)
  then show ?thesis by (simp add: patch_def PatcherEditor_def)
next
  case (Inr u)
  obtain res ed where pe: "patch_edits files (PatcherEditor tree) cfg = (res, ed)"
    by (cases "patch_edits files (PatcherEditor tree) cfg")
  with patch_edits_log[OF cache_inv_PatcherEditor, of files tree cfg]
  have "distinct (parse_log ed)"
    by (cases res) simp_all
  with Inr pe show ?thesis
    by (cases res; cases out) (simp_all add: patch_def rmtree_def)
qed

subsection \<open>The contract of the cache\<close>

lemma update_new_key: "map_of al k = None \<Longrightarrow> AList.update k v al = al @ [(k, v)]"
  by (induction al) (auto split: if_splits)

lemma get_file_miss:
  assumes "map_of (memory_files ed) path = None"
    and "get_raw_asset ed path = Inr r" and "has_format hint r"
  shows "get_file ed path hint =
           (Inr r, ed\<lparr>parse_log := parse_log ed @ [path],
                        memory_files := memory_files ed @ [(path, r)]\<rparr>)"
  using assms by (simp add: get_file_def get_parsed_asset_def update_new_key)

lemma get_file_miss_error:
  assumes "map_of (memory_files ed) path = None"
    and "\<forall>r. get_raw_asset ed path = Inr r \<longrightarrow> \<not> has_format hint r"
  shows "\<exists>e. get_file ed path hint = (Inl e, ed\<lparr>parse_log := parse_log ed @ [path]\<rparr>)"
proof (cases "get_raw_asset ed path")
  case (Inl e)
  with assms(1) show ?thesis by (simp add: get_file_def get_parsed_asset_def)
next
  case (Inr r)
  with assms show ?thesis by (simp add: get_file_def get_parsed_asset_def)
qed

text \<open>
  Claim C5. In an editor whose cache is that of a run: a read of a cached path returns
  the cached resource and leaves the editor as it is, so nothing is parsed; a read of a
  path that is not cached asks the repository to parse it, once, and where that yields a
  resource of the asked format the read returns it and caches it at the path, and where it
  does not the read fails and caches nothing; after a successful read of a path, every
  further read of it returns the same resource and changes nothing; the parse log has no
  path twice after a read, and none after a whole run of \<^verbatim>\<open>patch\<close>, however it ends;
  \<^verbatim>\<open>flush_modified_assets\<close> succeeds, stores every cached resource in the repository at its
  path, leaves the other assets and the packages as they were, and leaves the cache empty.
\<close>

theorem resource_cache:
  assumes "cache_inv ed"
  shows "(\<forall>r. map_of (memory_files ed) path = Some r \<longrightarrow> get_file ed path hint = (Inr r, ed))
    \<and> (\<forall>r. map_of (memory_files ed) path = None \<and> get_raw_asset ed path = Inr r \<and>
             has_format hint r \<longrightarrow>
          get_file ed path hint =
            (Inr r, ed\<lparr>parse_log := parse_log ed @ [path],
                         memory_files := memory_files ed @ [(path, r)]\<rparr>))
    \<and> (map_of (memory_files ed) path = None \<and>
        (\<forall>r. get_raw_asset ed path = Inr r \<longrightarrow> \<not> has_format hint r) \<longrightarrow>
          (\<exists>e. get_file ed path hint = (Inl e, ed\<lparr>parse_log := parse_log ed @ [path]\<rparr>)))
    \<and> (\<forall>r ed1. get_file ed path hint = (Inr r, ed1) \<longrightarrow>
          cache_inv ed1 \<and> get_file ed1 path hint' = (Inr r, ed1))
    \<and> distinct (parse_log (snd (get_file ed path hint)))
    \<and> distinct (parse_log (fst (snd (patch files tree out cfg))))
    \<and> (\<exists>ed'. flush_modified_assets ed = (Inr (), ed') \<and> memory_files ed' = [] \<and>
          packages ed' = packages ed \<and>
          (\<forall>p. map_of (assets ed') p =
                 (case map_of (memory_files ed) p of
                    Some r \<Rightarrow> Some r
                  | None \<Rightarrow> map_of (assets ed) p)))"
proof (intro conjI allI impI)
  fix r assume "map_of (memory_files ed) path = Some r"
  then show "get_file ed path hint = (Inr r, ed)" by (rule get_file_cached)
next
  fix r
  assume "map_of (memory_files ed) path = None \<and> get_raw_asset ed path = Inr r \<and>
          has_format hint r"
  then show "get_file ed path hint =
            (Inr r, ed\<lparr>parse_log := parse_log ed @ [path],
                         memory_files := memory_files ed @ [(path, r)]\<rparr>)"
    by (intro get_file_miss) simp_all
next
  assume "map_of (memory_files ed) path = None \<and>
        (\<forall>r. get_raw_asset ed path = Inr r \<longrightarrow> \<not> has_format hint r)"
  then show "\<exists>e. get_file ed path hint = (Inl e, ed\<lparr>parse_log := parse_log ed @ [path]\<rparr>)"
    by (intro get_file_miss_error) simp_all
next
  fix r ed1 assume g: "get_file ed path hint = (Inr r, ed1)"
  from get_file_inv[OF assms, of path hint] g show "cache_inv ed1" by simp
  from g show "get_file ed1 path hint' = (Inr r, ed1)" by (rule get_file_again)
next
  from get_file_inv[OF assms, of path hint]
  show "distinct (parse_log (snd (get_file ed path hint)))"
    by (auto simp: post_def cache_inv_distinct split: sum.splits)
next
  show "distinct (parse_log (fst (snd (patch files tree out cfg))))"
    by (rule patch_parse_log)
next
  from assms have d: "distinct (map fst (memory_files ed))"
    by (simp add: cache_inv_def)
  show "\<exists>ed'. flush_modified_assets ed = (Inr (), ed') \<and> memory_files ed' = [] \<and>
          packages ed' = packages ed \<and>
          (\<forall>p. map_of (assets ed') p =
                 (case map_of (memory_files ed) p of
                    Some r \<Rightarrow> Some r
                  | None \<Rightarrow> map_of (assets ed) p))"
    by (simp add: flush_modified_assets_ok[OF assms] map_of_fold_update[OF d])
qed

text \<open>
  Claim C5, witness. On the editor of the example tree, which starts with an empty cache,
  the first read of the cave scene parses it and caches what the repository holds, the
  second read returns the same scene and parses nothing, and the read of a scene the
  tree does not have fails and caches nothing. On the editor that has the cave scene cached
  in an edited form, the read returns the edited scene and the commit stores it over the
  scene of the repository and empties the cache.
\<close>

theorem resource_cache_witness:
  "cache_inv (PatcherEditor example_tree) \<and> memory_files (PatcherEditor example_tree) = [] \<and>
   (\<exists>ed1. get_file (PatcherEditor example_tree) cave_brfld Brfld =
              (Inr (BrfldRes example_scene), ed1) \<and>
      parse_log ed1 = [cave_brfld] \<and>
      memory_files ed1 = [(cave_brfld, BrfldRes example_scene)] \<and>
      get_file ed1 cave_brfld Brfld = (Inr (BrfldRes example_scene), ed1) \<and>
      (\<exists>e. get_file ed1 ''maps/levels/c10_samus/s020_magma/s020_magma.brfld'' Brfld =
              (Inl e, ed1\<lparr>parse_log := [cave_brfld,
                 ''maps/levels/c10_samus/s020_magma/s020_magma.brfld'']\<rparr>))) \<and>
   cache_inv example_cached \<and>
   get_file example_cached cave_brfld Brfld = (Inr (BrfldRes [(''default'', [])]), example_cached) \<and>
   (\<exists>ed'. flush_modified_assets example_cached = (Inr (), ed') \<and> memory_files ed' = [] \<and>
      map_of (assets ed') cave_brfld = Some (BrfldRes [(''default'', [])]) \<and>
      map_of (assets ed') ''system/scripts/init.lc'' = Some (Bytes ''init''))"
proof -
  let ?ed0 = "PatcherEditor example_tree"
  let ?ed1 = "?ed0\<lparr>parse_log := parse_log ?ed0 @ [cave_brfld],
                    memory_files := memory_files ?ed0 @ [(cave_brfld, BrfldRes example_scene)]\<rparr>"
  let ?magma = "''maps/levels/c10_samus/s020_magma/s020_magma.brfld''"
  have inv0: "cache_inv ?ed0" by (rule cache_inv_PatcherEditor)
  have empty: "memory_files ?ed0 = []" and log0: "parse_log ?ed0 = []"
    by (simp_all add: PatcherEditor_def)
  have miss: "map_of (memory_files ?ed0) cave_brfld = None \<and>
              get_raw_asset ?ed0 cave_brfld = Inr (BrfldRes example_scene) \<and>
              has_format Brfld (BrfldRes example_scene)"
    by (simp add: PatcherEditor_def example_tree_def get_raw_asset_def has_format_def
        cave_brfld_def)
  note rc0 = resource_cache[OF inv0, of cave_brfld Brfld Brfld]
  from rc0 miss have first: "get_file ?ed0 cave_brfld Brfld = (Inr (BrfldRes example_scene), ?ed1)"
    by blast
  with rc0 have inv1: "cache_inv ?ed1"
    and second: "get_file ?ed1 cave_brfld Brfld = (Inr (BrfldRes example_scene), ?ed1)"
    by blast+
  have log1: "parse_log ?ed1 = [cave_brfld]"
    and mem1: "memory_files ?ed1 = [(cave_brfld, BrfldRes example_scene)]"
    by (simp_all add: PatcherEditor_def)
  have nomagma: "map_of (memory_files ?ed1) ?magma = None \<and>
                 (\<forall>r. get_raw_asset ?ed1 ?magma = Inr r \<longrightarrow> \<not> has_format Brfld r)"
    by (simp add: PatcherEditor_def example_tree_def get_raw_asset_def cave_brfld_def)
  from resource_cache[OF inv1, of ?magma Brfld] nomagma
  obtain e where "get_file ?ed1 ?magma Brfld = (Inl e, ?ed1\<lparr>parse_log := parse_log ?ed1 @ [?magma]\<rparr>)"
    by blast
  then have third: "\<exists>e. get_file ?ed1 ?magma Brfld =
                      (Inl e, ?ed1\<lparr>parse_log := [cave_brfld, ?magma]\<rparr>)"
    by (auto simp: PatcherEditor_def)
  have inv: "cache_inv example_cached"
    by (simp add: cache_inv_def example_cached_def example_tree_def cave_brfld_def)
  have hit: "map_of (memory_files example_cached) cave_brfld = Some (BrfldRes [(''default'', [])])"
    and nohit: "map_of (memory_files example_cached) ''system/scripts/init.lc'' = None"
    and old: "map_of (assets example_cached) ''system/scripts/init.lc'' = Some (Bytes ''init'')"
    by (simp_all add: example_cached_def example_tree_def cave_brfld_def)
  note rc = resource_cache[OF inv, of cave_brfld Brfld]
  from rc hit have 1: "get_file example_cached cave_brfld Brfld =
                      (Inr (BrfldRes [(''default'', [])]), example_cached)"
    by blast
  from rc obtain ed' where
    f: "flush_modified_assets example_cached = (Inr (), ed')" and
    m: "memory_files ed' = []" and
    a: "\<And>p. map_of (assets ed') p =
                 (case map_of (memory_files example_cached) p of
                    Some r \<Rightarrow> Some r
                  | None \<Rightarrow> map_of (assets example_cached) p)"
    by blast
  have 3: "map_of (assets ed') cave_brfld = Some (BrfldRes [(''default'', [])])"
    by (simp add: a hit)
  have 4: "map_of (assets ed') ''system/scripts/init.lc'' = Some (Bytes ''init'')"
    by (simp add: a nohit old)
  from inv0 empty first log1 mem1 second third inv 1 f m 3 4 show ?thesis
    by blast
qed

section \<open>The reference copy of the initialization script\<close>

lemma ensure_present_known:
  assumes "pkg \<in> fst ` set (packages ed)"
  shows "ensure_present ed pkg name = (Inr (), ed\<lparr>packages := with_asset name pkg (packages ed)\<rparr>)"
proof -
  from assms obtain files where "map_of (packages ed) pkg = Some files"
    by (metis map_of_eq_None_iff not_Some_eq)
  then show ?thesis
    by (simp add: ensure_present_def with_asset_def)
qed

lemma keys_with_asset: "fst ` set (with_asset name pkg ps) = fst ` set ps"
proof (cases "map_of ps pkg")
  case None
  then show ?thesis by (simp add: with_asset_def)
next
  case (Some files)
  then have "pkg \<in> fst ` set ps"
    by (metis map_of_eq_None_iff option.distinct(1))
  with Some show ?thesis
    by (auto simp: with_asset_def fst_set_update)
qed

lemma ensure_present_in_known:
  assumes "set pkgs \<subseteq> fst ` set (packages ed)"
  shows "ensure_present_in ed pkgs name =
           (Inr (), ed\<lparr>packages := fold (with_asset name) pkgs (packages ed)\<rparr>)"
  using assms
proof (induction pkgs arbitrary: ed)
  case Nil
  show ?case by simp
next
  case (Cons pkg pkgs)
  then have here: "pkg \<in> fst ` set (packages ed)" by simp
  have rest: "set pkgs \<subseteq> fst ` set (packages (ed\<lparr>packages := with_asset name pkg (packages ed)\<rparr>))"
    using Cons.prems by (simp add: keys_with_asset)
  show ?case
    by (simp add: ensure_present_known[OF here] Cons.IH[OF rest])
qed

lemma find_pkgs_known: "set (find_pkgs ed name) \<subseteq> fst ` set (packages ed)"
  by (auto simp: find_pkgs_def)

lemma add_new_asset_ok:
  assumes "\<not> does_asset_exists ed name" and "set in_pkgs \<subseteq> fst ` set (packages ed)"
  shows "add_new_asset ed name new_data in_pkgs =
           (Inr (), ed\<lparr>assets := assets ed @ [(name, new_data)],
                        added_log := added_log ed @ [(name, new_data, in_pkgs)],
                        packages := fold (with_asset name) in_pkgs (packages ed)\<rparr>)"
  using assms by (simp add: add_new_asset_def ensure_present_in_known)

text \<open>
  Claim C8. In an editor that has \<^verbatim>\<open>system/scripts/original_init.lc\<close>,
  \<^verbatim>\<open>create_init_copy\<close> changes nothing. In an editor that does not have it and has
  \<^verbatim>\<open>system/scripts/init.lc\<close>, it succeeds: the copy has the content of the live script,
  every other asset is as before, the copy was added once, targeted at the packages of the
  live script, and running \<^verbatim>\<open>create_init_copy\<close> again on the result changes nothing.
\<close>

theorem create_init_copy_once:
  "(does_asset_exists ed original_init \<longrightarrow> create_init_copy ed = (Inr (), ed))
   \<and> (\<not> does_asset_exists ed original_init \<and>
       get_raw_asset ed ''system/scripts/init.lc'' = Inr original_lc \<longrightarrow>
        (\<exists>ed1. create_init_copy ed = (Inr (), ed1) \<and>
           get_raw_asset ed1 original_init = Inr original_lc \<and>
           (\<forall>name. name \<noteq> original_init \<longrightarrow> get_raw_asset ed1 name = get_raw_asset ed name) \<and>
           added_log ed1 = added_log ed @
             [(original_init, original_lc, find_pkgs ed ''system/scripts/init.lc'')] \<and>
           create_init_copy ed1 = (Inr (), ed1)))"
proof (intro conjI impI)
  assume "does_asset_exists ed original_init"
  then show "create_init_copy ed = (Inr (), ed)"
    by (simp add: create_init_copy_def)
next
  assume a: "\<not> does_asset_exists ed original_init \<and>
       get_raw_asset ed ''system/scripts/init.lc'' = Inr original_lc"
  let ?ed1 = "ed\<lparr>assets := assets ed @ [(original_init, original_lc)],
                 added_log := added_log ed @
                   [(original_init, original_lc, find_pkgs ed ''system/scripts/init.lc'')],
                 packages := fold (with_asset original_init)
                               (find_pkgs ed ''system/scripts/init.lc'') (packages ed)\<rparr>"
  from a have new: "map_of (assets ed) original_init = None"
    by (simp add: does_asset_exists_def)
  have 1: "create_init_copy ed = (Inr (), ?ed1)"
    using a by (simp add: create_init_copy_def add_new_asset_ok find_pkgs_known)
  have 2: "get_raw_asset ?ed1 original_init = Inr original_lc"
    using new by (simp add: get_raw_asset_def map_add_def)
  have 3: "\<forall>name. name \<noteq> original_init \<longrightarrow> get_raw_asset ?ed1 name = get_raw_asset ed name"
    by (auto simp: get_raw_asset_def map_add_def split: option.splits)
  have 4: "create_init_copy ?ed1 = (Inr (), ?ed1)"
    by (simp add: create_init_copy_def does_asset_exists_iff)
  show "\<exists>ed1. create_init_copy ed = (Inr (), ed1) \<and>
           get_raw_asset ed1 original_init = Inr original_lc \<and>
           (\<forall>name. name \<noteq> original_init \<longrightarrow> get_raw_asset ed1 name = get_raw_asset ed name) \<and>
           added_log ed1 = added_log ed @
             [(original_init, original_lc, find_pkgs ed ''system/scripts/init.lc'')] \<and>
           create_init_copy ed1 = (Inr (), ed1)"
    using 1 2 3 4 by (intro exI[of _ ?ed1]) simp
qed

text \<open>Claim C8, witness: the example tree, which has the live script and no copy.\<close>

theorem create_init_copy_once_witness:
  "\<not> does_asset_exists example_tree original_init \<and>
   get_raw_asset example_tree ''system/scripts/init.lc'' = Inr (Bytes ''init'') \<and>
   (\<exists>ed1. create_init_copy example_tree = (Inr (), ed1) \<and>
      get_raw_asset ed1 original_init = Inr (Bytes ''init'') \<and>
      get_raw_asset ed1 ''system/scripts/init.lc'' = Inr (Bytes ''init'') \<and>
      added_log ed1 = [(original_init, Bytes ''init'', [''packs/system/system.pkg''])] \<and>
      does_asset_exists ed1 original_init \<and>
      create_init_copy ed1 = (Inr (), ed1))"
proof -
  have new: "\<not> does_asset_exists example_tree original_init"
    and live: "get_raw_asset example_tree ''system/scripts/init.lc'' = Inr (Bytes ''init'')"
    and pkgs: "find_pkgs example_tree ''system/scripts/init.lc'' = [''packs/system/system.pkg'']"
    and log: "added_log example_tree = []"
    by (simp_all add: does_asset_exists_def get_raw_asset_def find_pkgs_def example_tree_def
        original_init_def cave_brfld_def)
  from create_init_copy_once[of example_tree "Bytes ''init''"] new live
  obtain ed1 where
    1: "create_init_copy example_tree = (Inr (), ed1)" and
    2: "get_raw_asset ed1 original_init = Inr (Bytes ''init'')" and
    3: "\<forall>name. name \<noteq> original_init \<longrightarrow> get_raw_asset ed1 name = get_raw_asset example_tree name" and
    4: "added_log ed1 = added_log example_tree @
             [(original_init, Bytes ''init'', find_pkgs example_tree ''system/scripts/init.lc'')]" and
    5: "create_init_copy ed1 = (Inr (), ed1)"
    by blast
  have 6: "get_raw_asset ed1 ''system/scripts/init.lc'' = Inr (Bytes ''init'')"
    using 3 live by (simp add: original_init_def)
  have 7: "does_asset_exists ed1 original_init"
    using 2 by (auto simp: get_raw_asset_def does_asset_exists_def split: option.splits)
  from new live 1 2 6 4 7 5 show ?thesis
    by (auto simp: pkgs log)
qed

section \<open>The warp patcher\<close>

lemma actor_of_store_actor:
  assumes "actor_of level ref = Inr a"
  shows "actor_of (store_actor level ref a') ref' =
           (if layer ref' = layer ref \<and> actor ref' = actor ref then Inr a'
            else actor_of level ref')"
proof -
  from assms obtain actors where l: "map_of level (layer ref) = Some actors"
    by (auto simp: actor_of_def actors_for_layer_def dict_get_def rbind_eq_Inr split: option.splits)
  show ?thesis
    by (simp add: actor_of_def actors_for_layer_def dict_get_def store_actor_def l update_conv')
qed

lemma get_file_frame:
  assumes "get_file ed path hint = (Inr r, ed1)"
  shows "assets ed1 = assets ed \<and> packages ed1 = packages ed \<and> added_log ed1 = added_log ed \<and>
         map_of (memory_files ed1) path = Some r \<and>
         (\<forall>p. p \<noteq> path \<longrightarrow> map_of (memory_files ed1) p = map_of (memory_files ed) p) \<and>
         (case map_of (memory_files ed) path of
            Some r' \<Rightarrow> r' = r \<and> ed1 = ed
          | None \<Rightarrow> map_of (assets ed) path = Some r)"
proof (cases "map_of (memory_files ed) path")
  case (Some r')
  with assms show ?thesis by (auto simp: get_file_def)
next
  case None
  show ?thesis
  proof (cases "map_of (assets ed) path")
    case n: None
    with None assms show ?thesis
      by (auto simp: get_file_def get_parsed_asset_def get_raw_asset_def)
  next
    case s: (Some r0)
    with None assms show ?thesis
      by (cases "has_format hint r0")
         (auto simp: get_file_def get_parsed_asset_def get_raw_asset_def update_new_key map_add_def
            split: option.splits)
  qed
qed

lemma get_scenario_frame:
  assumes "get_scenario ed name = (Inr level, ed1)"
  shows "assets ed1 = assets ed \<and> packages ed1 = packages ed \<and> added_log ed1 = added_log ed \<and>
         map_of (memory_files ed1) (path_for_level name @ ''.brfld'') = Some (BrfldRes level) \<and>
         (\<forall>p. p \<noteq> path_for_level name @ ''.brfld'' \<longrightarrow>
               map_of (memory_files ed1) p = map_of (memory_files ed) p) \<and>
         (case map_of (memory_files ed) (path_for_level name @ ''.brfld'') of
            Some r' \<Rightarrow> r' = BrfldRes level \<and> ed1 = ed
          | None \<Rightarrow> map_of (assets ed) (path_for_level name @ ''.brfld'') = Some (BrfldRes level))"
proof -
  obtain r0 e0 where g: "get_file ed (path_for_level name @ ''.brfld'') Brfld = (r0, e0)"
    by (cases "get_file ed (path_for_level name @ ''.brfld'') Brfld")
  with assms have "r0 = Inr (BrfldRes level)" and "ed1 = e0"
    by (cases r0; auto simp: get_scenario_def split: resource.splits)+
  with g have "get_file ed (path_for_level name @ ''.brfld'') Brfld = (Inr (BrfldRes level), ed1)"
    by simp
  then show ?thesis by (rule get_file_frame)
qed

lemma store_level_frame:
  "assets (store_level ed name level) = assets ed \<and>
   packages (store_level ed name level) = packages ed \<and>
   added_log (store_level ed name level) = added_log ed \<and>
   parse_log (store_level ed name level) = parse_log ed \<and>
   map_of (memory_files (store_level ed name level)) p =
     (if p = path_for_level name @ ''.brfld'' then Some (BrfldRes level)
      else map_of (memory_files ed) p)"
  by (simp add: store_level_def update_conv')

lemma patch_elevator_unfold:
  assumes "get_scenario ed (scenario (teleporter el)) = (Inr level, ed1)"
    and "actor_of level (teleporter el) = Inr a"
  shows "patch_elevator ed el =
     (case map_of (pComponents a) ''USABLE'' of
        None \<Rightarrow> (Inl (ActorIsNotATeleporter (teleporter el)), ed1)
      | Some usable \<Rightarrow>
          (Inr (),
           store_level ed1 (scenario (teleporter el))
             (store_actor level (teleporter el)
               (a\<lparr>pComponents :=
                    AList.update ''USABLE''
                      (AList.update ''sTargetSpawnPoint'' (JStr (loc_actor (destination el)))
                        (AList.update ''sScenarioName'' (JStr (loc_scenario (destination el)))
                           usable))
                      (pComponents a)\<rparr>))))"
  by (simp add: patch_elevator_def assms Let_def split: option.splits)

text \<open>
  Claim C4 (as amended). Take a warp edit whose scene resolves through the cache and whose
  actor is found. Resolving the scene changes no asset and no package and no resource that
  was cached; the one entry it can add to the cache is the scene of the edit, as the
  repository holds it. If the actor has no \<^verbatim>\<open>USABLE\<close> component, \<^verbatim>\<open>patch_elevators\<close> raises
  the \<^verbatim>\<open>ValueError\<close> that names the actor reference of the edit, and the editor is left as
  resolving the scene left it. If the actor has the component, the edit succeeds: no asset
  and no package changes, in the cache only the scene of the edit changes, in the scene
  only the actor of the edit, in the actor only the \<^verbatim>\<open>USABLE\<close> component, and in the
  component only \<^verbatim>\<open>sScenarioName\<close> and \<^verbatim>\<open>sTargetSpawnPoint\<close>, which are the scenario and
  the actor of the destination.
\<close>

theorem patch_elevator_effect:
  assumes "get_scenario ed (scenario (teleporter el)) = (Inr level, ed1)"
    and "actor_of level (teleporter el) = Inr a"
  shows "assets ed1 = assets ed \<and> packages ed1 = packages ed \<and>
    (\<forall>p r. map_of (memory_files ed) p = Some r \<longrightarrow> map_of (memory_files ed1) p = Some r) \<and>
    (\<forall>p r. map_of (memory_files ed) p = None \<and> map_of (memory_files ed1) p = Some r \<longrightarrow>
       p = path_for_level (scenario (teleporter el)) @ ''.brfld'' \<and>
       map_of (assets ed) p = Some r) \<and>
    (map_of (pComponents a) ''USABLE'' = None \<longrightarrow>
       patch_elevator ed el = (Inl (ActorIsNotATeleporter (teleporter el)), ed1)) \<and>
    (\<forall>usable. map_of (pComponents a) ''USABLE'' = Some usable \<longrightarrow>
       (\<exists>ed' level' a' usable'.
          patch_elevator ed el = (Inr (), ed') \<and>
          assets ed' = assets ed \<and> packages ed' = packages ed \<and>
          (\<forall>p. map_of (memory_files ed') p =
                (if p = path_for_level (scenario (teleporter el)) @ ''.brfld''
                 then Some (BrfldRes level') else map_of (memory_files ed1) p)) \<and>
          (\<forall>ref. actor_of level' ref =
                (if layer ref = layer (teleporter el) \<and> actor ref = actor (teleporter el)
                 then Inr a' else actor_of level ref)) \<and>
          oActorDefLink a' = oActorDefLink a \<and>
          (\<forall>c. map_of (pComponents a') c =
                (if c = ''USABLE'' then Some usable' else map_of (pComponents a) c)) \<and>
          (\<forall>f. map_of usable' f =
                (if f = ''sTargetSpawnPoint'' then Some (JStr (loc_actor (destination el)))
                 else if f = ''sScenarioName'' then Some (JStr (loc_scenario (destination el)))
                 else map_of usable f))))"
proof -
  note fr = get_scenario_frame[OF assms(1)]
  note un = patch_elevator_unfold[OF assms]
  have 1: "assets ed1 = assets ed \<and> packages ed1 = packages ed"
    using fr by simp
  have 2: "\<forall>p r. map_of (memory_files ed) p = Some r \<longrightarrow> map_of (memory_files ed1) p = Some r"
  proof (intro allI impI)
    fix p r assume c: "map_of (memory_files ed) p = Some r"
    show "map_of (memory_files ed1) p = Some r"
    proof (cases "p = path_for_level (scenario (teleporter el)) @ ''.brfld''")
      case True
      with c fr show ?thesis by simp
    next
      case False
      with c fr show ?thesis by simp
    qed
  qed
  have 3: "\<forall>p r. map_of (memory_files ed) p = None \<and> map_of (memory_files ed1) p = Some r \<longrightarrow>
       p = path_for_level (scenario (teleporter el)) @ ''.brfld'' \<and>
       map_of (assets ed) p = Some r"
  proof (intro allI impI)
    fix p r
    assume a: "map_of (memory_files ed) p = None \<and> map_of (memory_files ed1) p = Some r"
    then have p: "p = path_for_level (scenario (teleporter el)) @ ''.brfld''"
      using fr by (cases "p = path_for_level (scenario (teleporter el)) @ ''.brfld''") auto
    with a fr have "map_of (assets ed) p = Some r"
      by (auto split: option.splits)
    with p show "p = path_for_level (scenario (teleporter el)) @ ''.brfld'' \<and>
       map_of (assets ed) p = Some r" by simp
  qed
  have 4: "map_of (pComponents a) ''USABLE'' = None \<longrightarrow>
       patch_elevator ed el = (Inl (ActorIsNotATeleporter (teleporter el)), ed1)"
    by (simp add: un)
  have 5: "\<forall>usable. map_of (pComponents a) ''USABLE'' = Some usable \<longrightarrow>
       (\<exists>ed' level' a' usable'.
          patch_elevator ed el = (Inr (), ed') \<and>
          assets ed' = assets ed \<and> packages ed' = packages ed \<and>
          (\<forall>p. map_of (memory_files ed') p =
                (if p = path_for_level (scenario (teleporter el)) @ ''.brfld''
                 then Some (BrfldRes level') else map_of (memory_files ed1) p)) \<and>
          (\<forall>ref. actor_of level' ref =
                (if layer ref = layer (teleporter el) \<and> actor ref = actor (teleporter el)
                 then Inr a' else actor_of level ref)) \<and>
          oActorDefLink a' = oActorDefLink a \<and>
          (\<forall>c. map_of (pComponents a') c =
                (if c = ''USABLE'' then Some usable' else map_of (pComponents a) c)) \<and>
          (\<forall>f. map_of usable' f =
                (if f = ''sTargetSpawnPoint'' then Some (JStr (loc_actor (destination el)))
                 else if f = ''sScenarioName'' then Some (JStr (loc_scenario (destination el)))
                 else map_of usable f)))"
  proof (intro allI impI)
    fix usable assume u: "map_of (pComponents a) ''USABLE'' = Some usable"
    let ?usable' = "AList.update ''sTargetSpawnPoint'' (JStr (loc_actor (destination el)))
                     (AList.update ''sScenarioName'' (JStr (loc_scenario (destination el))) usable)"
    let ?a' = "a\<lparr>pComponents := AList.update ''USABLE'' ?usable' (pComponents a)\<rparr>"
    let ?level' = "store_actor level (teleporter el) ?a'"
    let ?ed' = "store_level ed1 (scenario (teleporter el)) ?level'"
    have a: "patch_elevator ed el = (Inr (), ?ed')"
      by (simp add: un u)
    have b: "assets ?ed' = assets ed \<and> packages ?ed' = packages ed"
      using 1 by (simp add: store_level_frame)
    have c: "\<forall>p. map_of (memory_files ?ed') p =
                (if p = path_for_level (scenario (teleporter el)) @ ''.brfld''
                 then Some (BrfldRes ?level') else map_of (memory_files ed1) p)"
      by (simp add: store_level_frame)
    have d: "\<forall>ref. actor_of ?level' ref =
                (if layer ref = layer (teleporter el) \<and> actor ref = actor (teleporter el)
                 then Inr ?a' else actor_of level ref)"
      by (simp add: actor_of_store_actor[OF assms(2)])
    have e: "oActorDefLink ?a' = oActorDefLink a" by simp
    have f: "\<forall>c. map_of (pComponents ?a') c =
                (if c = ''USABLE'' then Some ?usable' else map_of (pComponents a) c)"
      by (simp add: update_conv')
    have g: "\<forall>f. map_of ?usable' f =
                (if f = ''sTargetSpawnPoint'' then Some (JStr (loc_actor (destination el)))
                 else if f = ''sScenarioName'' then Some (JStr (loc_scenario (destination el)))
                 else map_of usable f)"
      by (simp add: update_conv')
    from a b c d e f g show "\<exists>ed' level' a' usable'.
          patch_elevator ed el = (Inr (), ed') \<and>
          assets ed' = assets ed \<and> packages ed' = packages ed \<and>
          (\<forall>p. map_of (memory_files ed') p =
                (if p = path_for_level (scenario (teleporter el)) @ ''.brfld''
                 then Some (BrfldRes level') else map_of (memory_files ed1) p)) \<and>
          (\<forall>ref. actor_of level' ref =
                (if layer ref = layer (teleporter el) \<and> actor ref = actor (teleporter el)
                 then Inr a' else actor_of level ref)) \<and>
          oActorDefLink a' = oActorDefLink a \<and>
          (\<forall>c. map_of (pComponents a') c =
                (if c = ''USABLE'' then Some usable' else map_of (pComponents a) c)) \<and>
          (\<forall>f. map_of usable' f =
                (if f = ''sTargetSpawnPoint'' then Some (JStr (loc_actor (destination el)))
                 else if f = ''sScenarioName'' then Some (JStr (loc_scenario (destination el)))
                 else map_of usable f))"
      by blast
  qed
  from 1 2 3 4 5 show ?thesis by blast
qed

lemmas editor_eval = PatcherEditor_def get_scenario_def get_file_def get_parsed_asset_def
  get_raw_asset_def has_format_def path_for_level_def actor_of_def actors_for_layer_def
  dict_get_def sbind_def

text \<open>
  Claim C4, as stated, fails: it says that the failing warp edit does not mutate the
  cache. The editor of the example tree has an empty cache; the warp edit on the door,
  which has no \<^verbatim>\<open>USABLE\<close> component, raises, and the cache then holds the cave scene: line
  89 reads the scene through \<^verbatim>\<open>get_file\<close>, which caches it, before line 94 raises.
\<close>

theorem failed_elevator_caches_scene:
  "memory_files (PatcherEditor example_tree) = [] \<and>
   patch_elevator (PatcherEditor example_tree) (example_elevator ''door_000'') =
     (Inl (ActorIsNotATeleporter
             \<lparr>scenario = ''s010_cave'', layer = ''default'', actor = ''door_000''\<rparr>),
      (PatcherEditor example_tree)
        \<lparr>parse_log := [cave_brfld], memory_files := [(cave_brfld, BrfldRes example_scene)]\<rparr>)"
  by (simp add: patch_elevator_def example_elevator_def editor_eval example_tree_def
      example_scene_def cave_brfld_def)

text \<open>
  Claim C4, witness: the warp edit on the elevator of the example scene. The two fields
  hold the destination, the third field of the component, the other component, the link
  and the door are as before.
\<close>

theorem patch_elevator_effect_witness:
  "\<exists>ed' level' a' usable'.
     patch_elevator (PatcherEditor example_tree) (example_elevator ''elevator_000'') = (Inr (), ed') \<and>
     assets ed' = assets (PatcherEditor example_tree) \<and>
     map_of (memory_files ed') cave_brfld = Some (BrfldRes level') \<and>
     actor_of level' \<lparr>scenario = ''s010_cave'', layer = ''default'', actor = ''elevator_000''\<rparr> =
       Inr a' \<and>
     actor_of level' \<lparr>scenario = ''s010_cave'', layer = ''default'', actor = ''door_000''\<rparr> =
       actor_of example_scene
         \<lparr>scenario = ''s010_cave'', layer = ''default'', actor = ''door_000''\<rparr> \<and>
     oActorDefLink a' = ''actordef:actors/props/elevator/charclasses/elevator.bmsad'' \<and>
     map_of (pComponents a') ''USABLE'' = Some usable' \<and>
     map_of (pComponents a') ''MODELUPDATER'' = Some [] \<and>
     map_of usable' ''sScenarioName'' = Some (JStr ''s030_baselab'') \<and>
     map_of usable' ''sTargetSpawnPoint'' = Some (JStr ''StartPoint1'') \<and>
     map_of usable' ''bUsable'' = Some (JBool True)"
proof -
  let ?ed = "PatcherEditor example_tree"
  let ?el = "example_elevator ''elevator_000''"
  let ?usable = "[(''sScenarioName'', JStr ''s020_magma''),
                  (''sTargetSpawnPoint'', JStr ''StartPoint0''),
                  (''bUsable'', JBool True)]"
  let ?a = "\<lparr>pComponents = [(''USABLE'', ?usable), (''MODELUPDATER'', [])],
            oActorDefLink = ''actordef:actors/props/elevator/charclasses/elevator.bmsad''\<rparr>"
  have tp: "teleporter ?el = \<lparr>scenario = ''s010_cave'', layer = ''default'', actor = ''elevator_000''\<rparr>"
    and dest: "destination ?el = \<lparr>loc_scenario = ''s030_baselab'', loc_actor = ''StartPoint1''\<rparr>"
    by (simp_all add: example_elevator_def)
  have path: "path_for_level (scenario (teleporter ?el)) @ ''.brfld'' = cave_brfld"
    by (simp add: tp path_for_level_def cave_brfld_def)
  let ?ed1 = "?ed\<lparr>parse_log := [cave_brfld],
                    memory_files := [(cave_brfld, BrfldRes example_scene)]\<rparr>"
  have h1: "get_scenario ?ed (scenario (teleporter ?el)) = (Inr example_scene, ?ed1)"
    by (simp add: tp editor_eval example_tree_def cave_brfld_def)
  have h2: "actor_of example_scene (teleporter ?el) = Inr ?a"
    by (simp add: tp editor_eval example_scene_def)
  have u: "map_of (pComponents ?a) ''USABLE'' = Some ?usable"
    by simp
  note th = patch_elevator_effect[OF h1 h2, THEN conjunct2, THEN conjunct2, THEN conjunct2,
                THEN conjunct2, THEN conjunct2, rule_format, OF u]
  from th obtain ed' level' a' usable' where
    r: "patch_elevator ?ed ?el = (Inr (), ed')" and
    as: "assets ed' = assets ?ed" and
    mf: "\<And>p. map_of (memory_files ed') p =
                (if p = path_for_level (scenario (teleporter ?el)) @ ''.brfld''
                 then Some (BrfldRes level') else map_of (memory_files ?ed1) p)" and
    ac: "\<And>ref. actor_of level' ref =
                (if layer ref = layer (teleporter ?el) \<and> actor ref = actor (teleporter ?el)
                 then Inr a' else actor_of example_scene ref)" and
    link: "oActorDefLink a' = oActorDefLink ?a" and
    comps: "\<And>c. map_of (pComponents a') c =
                (if c = ''USABLE'' then Some usable' else map_of (pComponents ?a) c)" and
    flds: "\<And>f. map_of usable' f =
                (if f = ''sTargetSpawnPoint'' then Some (JStr (loc_actor (destination ?el)))
                 else if f = ''sScenarioName'' then Some (JStr (loc_scenario (destination ?el)))
                 else map_of ?usable f)"
    by (elim exE conjE) blast
  have 1: "map_of (memory_files ed') cave_brfld = Some (BrfldRes level')"
    using mf[of cave_brfld] by (simp add: path)
  have 2: "actor_of level' \<lparr>scenario = ''s010_cave'', layer = ''default'', actor = ''elevator_000''\<rparr>
             = Inr a'"
    by (simp add: ac tp)
  have 3: "actor_of level' \<lparr>scenario = ''s010_cave'', layer = ''default'', actor = ''door_000''\<rparr> =
       actor_of example_scene
         \<lparr>scenario = ''s010_cave'', layer = ''default'', actor = ''door_000''\<rparr>"
    by (simp add: ac tp)
  have 4: "oActorDefLink a' = ''actordef:actors/props/elevator/charclasses/elevator.bmsad''"
    using link by simp
  have 5: "map_of (pComponents a') ''USABLE'' = Some usable'"
    and 6: "map_of (pComponents a') ''MODELUPDATER'' = Some []"
    by (simp_all add: comps)
  have 7: "map_of usable' ''sScenarioName'' = Some (JStr ''s030_baselab'')"
    and 8: "map_of usable' ''sTargetSpawnPoint'' = Some (JStr ''StartPoint1'')"
    and 9: "map_of usable' ''bUsable'' = Some (JBool True)"
    by (simp_all add: flds dest)
  from r as 1 2 3 4 5 6 7 8 9 show ?thesis
    by (intro exI[of _ ed'] exI[of _ level'] exI[of _ a'] exI[of _ usable'] conjI)
qed

end
